(* ===== verification/Prelude.thy ===== *)
theory Prelude
  imports Main
begin

text \<open>
  Shared vocabulary of the development: Go's \<open>error\<close> values, the result type
  of a fallible call (\<open>Inl\<close> the error, as in \<open>if err != nil { return err }\<close>),
  the named theorem collections the component theories fill, and generic lemmas on
  lists and sums that the component proofs use.
\<close>

section \<open>Go errors and results\<close>

text \<open>
  A Go \<open>error\<close> is an opaque value; the only thing the code under study does with one
  is create it with \<open>fmt.Errorf\<close> or return it unchanged. It is modelled by its
  message text.
\<close>

datatype error = Error string

type_synonym 'a result = "error + 'a"

text \<open>
  An outcome together with the world it leaves behind: Go functions that fail still
  keep the effects they made before failing (printed lines, deleted applications).
\<close>

type_synonym ('a, 'w) outcome = "'a result \<times> 'w"

named_theorems trace_simps \<open>equations computing the interaction trace of an operation\<close>
named_theorems phase_intros \<open>introduction rules of the group-delete lifecycle\<close>

section \<open>Generic lemmas\<close>

lemma sum_case_Inl_Inr_eq [simp]:
  "(case r of Inl e \<Rightarrow> Inl e | Inr x \<Rightarrow> Inr x) = r"
  by (cases r) simp_all

end
