(* ===== verification/Flags.thy ===== *)
theory Flags
  imports Prelude
begin

text \<open>
  The option structs of the \<open>app-group delete\<close> command
  (\<open>src/pkg/kapp/cmd/appgroup/delete.go\<close>) and of the flag structs it reads from
  packages outside \<open>src/\<close>: \<open>cmdcore.NamespaceFlags\<close>, \<open>appgroup.Flags\<close> and
  \<open>cmdapp.Flags\<close>, whose fields are given by the spec (section 6). Go structs
  become records; the diff and apply flag structs are passed through unread, so
  they are type parameters \<open>'d\<close> and \<open>'a\<close>: nothing proved may depend on their
  contents. A Go \<open>string\<close> is a \<open>string\<close> (its length is the byte count
  \<open>len\<close> tests).
\<close>

section \<open>The reserved label key\<close>

text \<open>\<open>const appGroupAnnKey = "kapp.k14s.io/app-group"\<close> (delete.go, lines 17--19).\<close>

definition appGroupAnnKey :: string where
  "appGroupAnnKey = ''kapp.k14s.io/app-group''"

section \<open>Flag structs\<close>

text \<open>\<open>cmdcore.NamespaceFlags\<close>: the \<open>--namespace\<close> flag; the empty name is the
  all-namespaces scope of the spec.\<close>

record namespace_flags =
  ns_Name :: string

text \<open>\<open>appgroup.Flags\<close>: the group name, its namespace scope and the explicit
  per-group app namespace (\<open>--app-namespace\<close>).\<close>

record group_flags =
  Name :: string
  NamespaceFlags :: namespace_flags
  AppNamespace :: string

text \<open>\<open>cmdapp.Flags\<close>: the same three fields for a single application.\<close>

record app_flags =
  app_Name :: string
  app_NamespaceFlags :: namespace_flags
  app_AppNamespace :: string

text \<open>\<open>DeleteAppFlags\<close> (delete.go, lines 31--34).\<close>

record ('d, 'a) delete_app_flags =
  DiffFlags :: 'd
  ApplyFlags :: 'a

end
