(* ===== verification/Collaborators.thy ===== *)
theory Collaborators
  imports Flags
begin

text \<open>
  The interface between the group-delete command and the collaborators it calls
  through \<open>o.depsFactory\<close> and \<open>o.ui\<close>: \<open>cmdapp.FactoryClients\<close>, the application
  registry \<open>supportObjs.Apps.List\<close>, the single-application workflow
  \<open>cmdapp.DeleteOptions.Run\<close>, and \<open>ui.PrintLinef\<close>. None of their code is under
  \<open>src/\<close>; they are given here at their interface (spec, section 6) as the fields of
  a record of functions, so that every theorem of the command holds for every
  implementation of them. The cluster they act on is a type parameter \<open>'c\<close>.

  The world the command runs in is the cluster together with the trace of the
  interactions the command makes, in order: each call to a collaborator and each
  printed line is one event. Properties such as ``no registry call is made'' or
  ``the workflow is invoked exactly twice'' are statements about this trace.
\<close>

section \<open>Application handles and the delete-workflow configuration\<close>

text \<open>A handle returned by \<open>Apps.List\<close>: the command only reads \<open>Name()\<close>; the
  namespace the registry found it in is kept for the properties that compare it.\<close>

record app =
  app_name :: string
  app_namespace :: string

text \<open>\<open>cmdapp.DeleteOptions\<close>, the configuration of the single-application delete
  workflow: its \<open>AppFlags\<close>, \<open>DiffFlags\<close> and \<open>ApplyFlags\<close> fields.\<close>

record ('d, 'a) app_delete_options =
  del_AppFlags :: app_flags
  del_DiffFlags :: 'd
  del_ApplyFlags :: 'a

section \<open>Observable interactions\<close>

datatype ('d, 'a) event =
    FactoryClientsCall namespace_flags string
  | AppsListCall "(string \<times> string) list"
  | PrintLine string
  | DeleteRunCall "('d, 'a) app_delete_options"

section \<open>The collaborators\<close>

text \<open>
  \<^item> \<open>factory_clients nsFlags appNamespace c\<close>: \<open>cmdapp.FactoryClients\<close>; \<open>Inl\<close> its error.
  \<^item> \<open>apps_list nsFlags appNamespace selector c\<close>: \<open>supportObjs.Apps.List(selector)\<close> on
    the apps object that \<open>FactoryClients\<close> built for that namespace scope; read-only.
  \<^item> \<open>delete_run opts c\<close>: \<open>deleteOpts.Run()\<close>, synchronous, returning its error or
    success and the cluster it leaves.
\<close>

record ('c, 'd, 'a) deps =
  factory_clients :: "namespace_flags \<Rightarrow> string \<Rightarrow> 'c \<Rightarrow> unit result"
  apps_list :: "namespace_flags \<Rightarrow> string \<Rightarrow> (string \<times> string) list \<Rightarrow> 'c \<Rightarrow> app list result"
  delete_run :: "('d, 'a) app_delete_options \<Rightarrow> 'c \<Rightarrow> (unit, 'c) outcome"

record ('c, 'd, 'a) world =
  w_cluster :: 'c
  w_log :: "('d, 'a) event list"

definition emit :: "('d, 'a) event \<Rightarrow> ('c, 'd, 'a) world \<Rightarrow> ('c, 'd, 'a) world" where
  "emit ev w = w\<lparr>w_log := w_log w @ [ev]\<rparr>"

section \<open>Reading the trace\<close>

fun delete_calls :: "('d, 'a) event list \<Rightarrow> ('d, 'a) app_delete_options list" where
  "delete_calls [] = []"
| "delete_calls (DeleteRunCall opts # evs) = opts # delete_calls evs"
| "delete_calls (_ # evs) = delete_calls evs"

fun list_calls :: "('d, 'a) event list \<Rightarrow> (string \<times> string) list list" where
  "list_calls [] = []"
| "list_calls (AppsListCall sel # evs) = sel # list_calls evs"
| "list_calls (_ # evs) = list_calls evs"

fun printed :: "('d, 'a) event list \<Rightarrow> string list" where
  "printed [] = []"
| "printed (PrintLine s # evs) = s # printed evs"
| "printed (_ # evs) = printed evs"

section \<open>A scripted implementation\<close>

text \<open>
  The test double of the spec's scenarios (section 8): the factory answers \<open>fc\<close>,
  the registry answers \<open>members\<close>, and the workflow fails for the names in
  \<open>failing\<close> and otherwise records the name as deleted. Its cluster is the list of
  names deleted so far. It is used for witnesses and scenarios only.
\<close>

definition scripted_deps ::
  "unit result \<Rightarrow> app list result \<Rightarrow> string list \<Rightarrow> (string list, 'd, 'a) deps" where
  "scripted_deps fc members failing =
     \<lparr>factory_clients = (\<lambda>_ _ _. fc),
      apps_list = (\<lambda>_ _ _ _. members),
      delete_run = (\<lambda>opts c. let n = app_Name (del_AppFlags opts) in
                      if n \<in> set failing then (Inl (Error (''deleting failed: '' @ n)), c)
                      else (Inr (), c @ [n]))\<rparr>"

section \<open>Trace lemmas\<close>

lemma delete_calls_append [trace_simps]:
  "delete_calls (xs @ ys) = delete_calls xs @ delete_calls ys"
  by (induction xs rule: delete_calls.induct) simp_all

lemma list_calls_append [trace_simps]:
  "list_calls (xs @ ys) = list_calls xs @ list_calls ys"
  by (induction xs rule: list_calls.induct) simp_all

lemma printed_append [trace_simps]:
  "printed (xs @ ys) = printed xs @ printed ys"
  by (induction xs rule: printed.induct) simp_all

lemma w_cluster_emit [simp]: "w_cluster (emit ev w) = w_cluster w"
  by (simp add: emit_def)

lemma w_log_emit [trace_simps]: "w_log (emit ev w) = w_log w @ [ev]"
  by (simp add: emit_def)

end
