(* ===== verification/GroupDelete.thy ===== *)
theory GroupDelete
  imports Collaborators
begin

text \<open>
  The orchestrator of \<open>src/pkg/kapp/cmd/appgroup/delete.go\<close>: the
  \<open>DeleteOptions\<close> struct, \<open>appNamespace\<close>, \<open>deleteApp\<close> and \<open>Run\<close>, with the
  \<open>for ... range\<close> loop of \<open>Run\<close> as the structural recursion \<open>delete_apps\<close>.
  Each operation takes the world (cluster and interaction trace) and returns its
  outcome with the world it leaves. The lemmas give the trace of every branch of
  \<open>Run\<close>: validation before any call, errors of the factory and of the registry
  returned unchanged, members deleted in list order with one shared configuration,
  and the stop at the first failing member. The outcome of the loop is stated
  against \<open>replay\<close> and \<open>outcomes\<close>, which apply the same workflow configurations to
  the cluster one after the other and record the cluster left and each call's
  result.
\<close>

section \<open>The options struct\<close>

text \<open>\<open>DeleteOptions\<close> (lines 21--29). \<open>ui\<close> is the \<open>PrintLine\<close> events of the
  trace and \<open>logger\<close> is write-only; \<open>depsFactory\<close> is the collaborator record.
  \<open>DeployFlags\<close> is carried but never read by the delete command.\<close>

record ('c, 'd, 'a, 'dep) delete_options =
  depsFactory :: "('c, 'd, 'a) deps"
  AppGroupFlags :: group_flags
  DeployFlags :: 'dep
  AppFlags :: "('d, 'a) delete_app_flags"

type_synonym ('c, 'd, 'a, 'dep) opts = "('c, 'd, 'a, 'dep) delete_options"
type_synonym ('c, 'd, 'a) gworld = "('c, 'd, 'a) world"

section \<open>Operations\<close>

text \<open>\<open>appNamespace\<close> (lines 94--99): the explicit app namespace if set, else the
  namespace flag.\<close>

definition appNamespace :: "('c, 'd, 'a, 'dep) opts \<Rightarrow> string" where
  "appNamespace opts =
     (if AppNamespace (AppGroupFlags opts) \<noteq> ''''
      then AppNamespace (AppGroupFlags opts)
      else ns_Name (NamespaceFlags (AppGroupFlags opts)))"

text \<open>The progress line of \<open>o.ui.PrintLinef("--- deleting app '%s' (namespace: %s)",
  name, o.appNamespace())\<close> (lines 79--80).\<close>

definition progress_line :: "string \<Rightarrow> string \<Rightarrow> string" where
  "progress_line name ns =
     ''--- deleting app '' @ [CHR 0x27] @ name @ [CHR 0x27] @ '' (namespace: '' @ ns @ '')''"

text \<open>The configuration \<open>deleteApp\<close> builds for one member (lines 82--89).\<close>

definition delete_config :: "('c, 'd, 'a, 'dep) opts \<Rightarrow> string \<Rightarrow> ('d, 'a) app_delete_options" where
  "delete_config opts name =
     \<lparr>del_AppFlags = \<lparr>app_Name = name,
                      app_NamespaceFlags = NamespaceFlags (AppGroupFlags opts),
                      app_AppNamespace = AppNamespace (AppGroupFlags opts)\<rparr>,
      del_DiffFlags = DiffFlags (AppFlags opts),
      del_ApplyFlags = ApplyFlags (AppFlags opts)\<rparr>"

text \<open>\<open>deleteApp\<close> (lines 78--92): print, build the configuration, run the workflow
  and return its error.\<close>

definition deleteApp ::
  "('c, 'd, 'a, 'dep) opts \<Rightarrow> string \<Rightarrow> ('c, 'd, 'a) gworld \<Rightarrow> (unit, ('c, 'd, 'a) gworld) outcome" where
  "deleteApp opts name w =
     (let w1 = emit (PrintLine (progress_line name (appNamespace opts))) w;
          deleteOpts = delete_config opts name;
          w2 = emit (DeleteRunCall deleteOpts) w1;
          (err, c') = delete_run (depsFactory opts) deleteOpts (w_cluster w2)
      in (err, w2\<lparr>w_cluster := c'\<rparr>))"

text \<open>The loop of \<open>Run\<close> (lines 68--73): members in list order, returning the first
  error.\<close>

fun delete_apps ::
  "('c, 'd, 'a, 'dep) opts \<Rightarrow> app list \<Rightarrow> ('c, 'd, 'a) gworld \<Rightarrow> (unit, ('c, 'd, 'a) gworld) outcome" where
  "delete_apps opts [] w = (Inr (), w)"
| "delete_apps opts (app # appsInGroup) w =
     (case deleteApp opts (app_name app) w of
        (Inl err, w') \<Rightarrow> (Inl err, w')
      | (Inr _, w') \<Rightarrow> delete_apps opts appsInGroup w')"

text \<open>The label selector of line 63: a one-entry map.\<close>

definition group_selector :: "('c, 'd, 'a, 'dep) opts \<Rightarrow> (string \<times> string) list" where
  "group_selector opts = [(appGroupAnnKey, Name (AppGroupFlags opts))]"

text \<open>\<open>Run\<close> (lines 53--76).\<close>

definition Run ::
  "('c, 'd, 'a, 'dep) opts \<Rightarrow> ('c, 'd, 'a) gworld \<Rightarrow> (unit, ('c, 'd, 'a) gworld) outcome" where
  "Run opts w =
     (if length (Name (AppGroupFlags opts)) = 0
      then (Inl (Error ''Expected group name to be non-empty''), w)
      else
        (let g = AppGroupFlags opts;
             w1 = emit (FactoryClientsCall (NamespaceFlags g) (AppNamespace g)) w
         in case factory_clients (depsFactory opts) (NamespaceFlags g) (AppNamespace g) (w_cluster w1) of
              Inl err \<Rightarrow> (Inl err, w1)
            | Inr _ \<Rightarrow>
                (let sel = group_selector opts;
                     w2 = emit (AppsListCall sel) w1
                 in case apps_list (depsFactory opts) (NamespaceFlags g) (AppNamespace g) sel (w_cluster w2) of
                      Inl err \<Rightarrow> (Inl err, w2)
                    | Inr appsInGroup \<Rightarrow> delete_apps opts appsInGroup w2)))"

section \<open>Observations of a run\<close>

text \<open>
  The events one member contributes to the trace (the progress line, then the
  workflow call), and the two calls that resolve the group. The abbreviations name
  the answers of the factory and the registry in the world a run starts from.
\<close>

definition member_events :: "('c, 'd, 'a, 'dep) opts \<Rightarrow> string \<Rightarrow> ('d, 'a) event list" where
  "member_events opts name =
     [PrintLine (progress_line name (appNamespace opts)), DeleteRunCall (delete_config opts name)]"

definition resolve_events :: "('c, 'd, 'a, 'dep) opts \<Rightarrow> ('d, 'a) event list" where
  "resolve_events opts =
     [FactoryClientsCall (NamespaceFlags (AppGroupFlags opts)) (AppNamespace (AppGroupFlags opts)),
      AppsListCall (group_selector opts)]"

text \<open>Replaying a list of workflow configurations against a cluster, one call after the
  other: \<open>replay\<close> gives the cluster left, \<open>outcomes\<close> the result of each call in turn.
  They read the collaborator only and are the reference the loop is compared with.\<close>

fun replay :: "('c, 'd, 'a) deps \<Rightarrow> ('d, 'a) app_delete_options list \<Rightarrow> 'c \<Rightarrow> 'c" where
  "replay deps [] c = c"
| "replay deps (cfg # cfgs) c = replay deps cfgs (snd (delete_run deps cfg c))"

fun outcomes :: "('c, 'd, 'a) deps \<Rightarrow> ('d, 'a) app_delete_options list \<Rightarrow> 'c \<Rightarrow> unit result list" where
  "outcomes deps [] c = []"
| "outcomes deps (cfg # cfgs) c = fst (delete_run deps cfg c) # outcomes deps cfgs (snd (delete_run deps cfg c))"

definition member_configs :: "('c, 'd, 'a, 'dep) opts \<Rightarrow> app list \<Rightarrow> ('d, 'a) app_delete_options list" where
  "member_configs opts apps = map (\<lambda>a. delete_config opts (app_name a)) apps"

abbreviation factory_answer :: "('c, 'd, 'a, 'dep) opts \<Rightarrow> ('c, 'd, 'a) gworld \<Rightarrow> unit result" where
  "factory_answer opts w \<equiv>
     factory_clients (depsFactory opts) (NamespaceFlags (AppGroupFlags opts))
       (AppNamespace (AppGroupFlags opts)) (w_cluster w)"

abbreviation registry_answer :: "('c, 'd, 'a, 'dep) opts \<Rightarrow> ('c, 'd, 'a) gworld \<Rightarrow> app list result" where
  "registry_answer opts w \<equiv>
     apps_list (depsFactory opts) (NamespaceFlags (AppGroupFlags opts))
       (AppNamespace (AppGroupFlags opts)) (group_selector opts) (w_cluster w)"

section \<open>Fixtures for witnesses\<close>

text \<open>A group \<open>name\<close> with namespace flag \<open>ns\<close> and app namespace \<open>appns\<close>, the
  diff and apply flags fixed to distinguishable values, run from an empty trace.\<close>

definition demo_opts :: "('c, nat, bool) deps \<Rightarrow> string \<Rightarrow> string \<Rightarrow> string \<Rightarrow> ('c, nat, bool, unit) opts" where
  "demo_opts deps name ns appns =
     \<lparr>depsFactory = deps,
      AppGroupFlags = \<lparr>Name = name, NamespaceFlags = \<lparr>ns_Name = ns\<rparr>, AppNamespace = appns\<rparr>,
      DeployFlags = (),
      AppFlags = \<lparr>DiffFlags = 7, ApplyFlags = True\<rparr>\<rparr>"

definition demo_apps :: "string list \<Rightarrow> string \<Rightarrow> app list" where
  "demo_apps names ns = map (\<lambda>n. \<lparr>app_name = n, app_namespace = ns\<rparr>) names"

definition demo_world :: "(string list, nat, bool) gworld" where
  "demo_world = \<lparr>w_cluster = [], w_log = []\<rparr>"

text \<open>The spec's scenario: members A, B, C in \<open>ns1\<close>, the workflow failing on B;
  the group has namespace flag \<open>ns2\<close> and app namespace \<open>ns1\<close>.\<close>

definition abc_opts :: "(string list, nat, bool, unit) opts" where
  "abc_opts = demo_opts (scripted_deps (Inr ()) (Inr (demo_apps [''A'', ''B'', ''C''] ''ns1'')) [''B''])
                ''g'' ''ns2'' ''ns1''"

section \<open>Trace lemmas\<close>

lemma member_events_trace [trace_simps]:
  "delete_calls (member_events opts n) = [delete_config opts n]"
  "printed (member_events opts n) = [progress_line n (appNamespace opts)]"
  "list_calls (member_events opts n) = []"
  by (simp_all add: member_events_def)

lemma resolve_events_trace [trace_simps]:
  "delete_calls (resolve_events opts) = []"
  "printed (resolve_events opts) = []"
  "list_calls (resolve_events opts) = [group_selector opts]"
  by (simp_all add: resolve_events_def)

lemma deleteApp_eq:
  "deleteApp opts name w =
     (let (err, c') = delete_run (depsFactory opts) (delete_config opts name) (w_cluster w)
      in (err, w\<lparr>w_cluster := c', w_log := w_log w @ member_events opts name\<rparr>))"
  by (simp add: deleteApp_def emit_def member_events_def split: prod.split)

lemma Run_resolved:
  assumes "Name (AppGroupFlags opts) \<noteq> ''''"
    and "factory_answer opts w = Inr u"
    and "registry_answer opts w = Inr apps"
  shows "Run opts w = delete_apps opts apps (w\<lparr>w_log := w_log w @ resolve_events opts\<rparr>)"
  using assms by (simp add: Run_def emit_def resolve_events_def Let_def)

lemma Run_cases:
  obtains (empty_name) "Name (AppGroupFlags opts) = ''''"
      and "Run opts w = (Inl (Error ''Expected group name to be non-empty''), w)"
  | (factory_failed) e where "Name (AppGroupFlags opts) \<noteq> ''''" and "factory_answer opts w = Inl e"
      and "Run opts w = (Inl e, w\<lparr>w_log := w_log w @
             [FactoryClientsCall (NamespaceFlags (AppGroupFlags opts)) (AppNamespace (AppGroupFlags opts))]\<rparr>)"
  | (list_failed) e where "Name (AppGroupFlags opts) \<noteq> ''''" and "factory_answer opts w = Inr ()"
      and "registry_answer opts w = Inl e"
      and "Run opts w = (Inl e, w\<lparr>w_log := w_log w @ resolve_events opts\<rparr>)"
  | (resolved) apps where "Name (AppGroupFlags opts) \<noteq> ''''" and "factory_answer opts w = Inr ()"
      and "registry_answer opts w = Inr apps"
      and "Run opts w = delete_apps opts apps (w\<lparr>w_log := w_log w @ resolve_events opts\<rparr>)"
proof (cases "Name (AppGroupFlags opts) = ''''")
  case True
  then show ?thesis by (intro that(1)) (simp_all add: Run_def)
next
  case False
  show ?thesis
  proof (cases "factory_answer opts w")
    case (Inl e)
    with False show ?thesis by (intro that(2)[of e]) (simp_all add: Run_def emit_def Let_def)
  next
    case (Inr u)
    then have u: "factory_answer opts w = Inr ()" by simp
    show ?thesis
    proof (cases "registry_answer opts w")
      case (Inl e)
      with False u show ?thesis
        by (intro that(3)[of e]) (simp_all add: Run_def emit_def resolve_events_def Let_def)
    next
      case (Inr apps)
      with False u show ?thesis
        by (intro that(4)[of apps]) (simp_all add: Run_resolved)
    qed
  qed
qed

lemma delete_apps_calls:
  "\<exists>names. w_log (snd (delete_apps opts apps w)) =
     w_log w @ concat (map (member_events opts) names)"
proof (induction apps arbitrary: w)
  case Nil
  show ?case by (rule exI[of _ "[]"]) simp
next
  case (Cons a as)
  obtain r1 c1 where d: "delete_run (depsFactory opts) (delete_config opts (app_name a)) (w_cluster w) = (r1, c1)"
    by (cases "delete_run (depsFactory opts) (delete_config opts (app_name a)) (w_cluster w)")
  let ?w1 = "w\<lparr>w_cluster := c1, w_log := w_log w @ member_events opts (app_name a)\<rparr>"
  show ?case
  proof (cases r1)
    case (Inl e)
    with d show ?thesis by (intro exI[of _ "[app_name a]"]) (simp add: deleteApp_eq)
  next
    case (Inr u)
    from Cons.IH[of ?w1] obtain names
      where "w_log (snd (delete_apps opts as ?w1)) = w_log ?w1 @ concat (map (member_events opts) names)" ..
    with d Inr show ?thesis by (intro exI[of _ "app_name a # names"]) (simp add: deleteApp_eq)
  qed
qed


lemma delete_apps_outcome:
  assumes "delete_apps opts apps w = (r, w')"
  shows "(r = Inr ()
          \<and> list_all (\<lambda>res. res = Inr ()) (outcomes (depsFactory opts) (member_configs opts apps) (w_cluster w))
          \<and> w_log w' = w_log w @ concat (map (\<lambda>a. member_events opts (app_name a)) apps)
          \<and> w_cluster w' = replay (depsFactory opts) (member_configs opts apps) (w_cluster w))
    \<or> (\<exists>pre x post e. apps = pre @ x # post \<and> r = Inl e
         \<and> list_all (\<lambda>res. res = Inr ()) (outcomes (depsFactory opts) (member_configs opts pre) (w_cluster w))
         \<and> w_log w' = w_log w @ concat (map (\<lambda>a. member_events opts (app_name a)) (pre @ [x]))
         \<and> delete_run (depsFactory opts) (delete_config opts (app_name x))
             (replay (depsFactory opts) (member_configs opts pre) (w_cluster w)) = (Inl e, w_cluster w'))"
  using assms
proof (induction apps arbitrary: w)
  case Nil
  then show ?case by (simp add: member_configs_def)
next
  case (Cons a as)
  obtain r1 c1 where d: "delete_run (depsFactory opts) (delete_config opts (app_name a)) (w_cluster w) = (r1, c1)"
    by (cases "delete_run (depsFactory opts) (delete_config opts (app_name a)) (w_cluster w)")
  let ?w1 = "w\<lparr>w_cluster := c1, w_log := w_log w @ member_events opts (app_name a)\<rparr>"
  have step: "deleteApp opts (app_name a) w = (r1, ?w1)"
    by (simp add: deleteApp_eq d)
  show ?case
  proof (cases r1)
    case (Inl e)
    with Cons.prems step d have "r = Inl e" "w' = ?w1" by simp_all
    with d Inl show ?thesis
      by (intro disjI2 exI[of _ "[]"] exI[of _ a] exI[of _ as] exI[of _ e]) (simp add: member_configs_def)
  next
    case (Inr u)
    with Cons.prems step have rec: "delete_apps opts as ?w1 = (r, w')" by simp
    have ok: "fst (delete_run (depsFactory opts) (delete_config opts (app_name a)) (w_cluster w)) = Inr ()"
      and c1: "snd (delete_run (depsFactory opts) (delete_config opts (app_name a)) (w_cluster w)) = c1"
      using d Inr by simp_all
    from Cons.IH[OF rec] show ?thesis
    proof
      assume "r = Inr ()
          \<and> list_all (\<lambda>res. res = Inr ()) (outcomes (depsFactory opts) (member_configs opts as) (w_cluster ?w1))
          \<and> w_log w' = w_log ?w1 @ concat (map (\<lambda>a. member_events opts (app_name a)) as)
          \<and> w_cluster w' = replay (depsFactory opts) (member_configs opts as) (w_cluster ?w1)"
      with ok c1 show ?thesis by (simp add: member_configs_def)
    next
      assume "\<exists>pre x post e. as = pre @ x # post \<and> r = Inl e
         \<and> list_all (\<lambda>res. res = Inr ()) (outcomes (depsFactory opts) (member_configs opts pre) (w_cluster ?w1))
         \<and> w_log w' = w_log ?w1 @ concat (map (\<lambda>a. member_events opts (app_name a)) (pre @ [x]))
         \<and> delete_run (depsFactory opts) (delete_config opts (app_name x))
             (replay (depsFactory opts) (member_configs opts pre) (w_cluster ?w1)) = (Inl e, w_cluster w')"
      then obtain pre x post e where p: "as = pre @ x # post" "r = Inl e"
         "list_all (\<lambda>res. res = Inr ()) (outcomes (depsFactory opts) (member_configs opts pre) c1)"
         "w_log w' = w_log ?w1 @ concat (map (\<lambda>a. member_events opts (app_name a)) (pre @ [x]))"
         "delete_run (depsFactory opts) (delete_config opts (app_name x))
             (replay (depsFactory opts) (member_configs opts pre) c1) = (Inl e, w_cluster w')"
        by auto
      with ok c1 show ?thesis
        by (intro disjI2 exI[of _ "a # pre"] exI[of _ x] exI[of _ post] exI[of _ e]) (simp add: member_configs_def)
    qed
  qed
qed

lemma member_events_concat_trace [trace_simps]:
  "delete_calls (concat (map (member_events opts) names)) = map (delete_config opts) names"
  "printed (concat (map (member_events opts) names)) = map (\<lambda>n. progress_line n (appNamespace opts)) names"
  by (induction names) (simp_all add: trace_simps)

lemma member_apps_concat_trace [trace_simps]:
  "delete_calls (concat (map (\<lambda>a. member_events opts (app_name a)) apps)) =
     map (\<lambda>a. delete_config opts (app_name a)) apps"
  "printed (concat (map (\<lambda>a. member_events opts (app_name a)) apps)) =
     map (\<lambda>a. progress_line (app_name a) (appNamespace opts)) apps"
  by (induction apps) (simp_all add: trace_simps)

lemma Run_trace:
  "\<exists>evs names. w_log (snd (Run opts w)) = w_log w @ evs @ concat (map (member_events opts) names)
     \<and> delete_calls evs = [] \<and> printed evs = []"
proof (cases rule: Run_cases[of opts w])
  case empty_name
  then show ?thesis by (intro exI[of _ "[]"]) simp
next
  case (factory_failed e)
  then show ?thesis by (intro exI[of _ "[hd (resolve_events opts)]"] exI[of _ "[]"]) (simp add: resolve_events_def)
next
  case (list_failed e)
  then show ?thesis by (intro exI[of _ "resolve_events opts"] exI[of _ "[]"]) (simp add: trace_simps)
next
  case (resolved apps)
  obtain names where "w_log (snd (delete_apps opts apps (w\<lparr>w_log := w_log w @ resolve_events opts\<rparr>))) =
      w_log w @ resolve_events opts @ concat (map (member_events opts) names)"
    using delete_apps_calls[of opts apps "w\<lparr>w_log := w_log w @ resolve_events opts\<rparr>"] by auto
  with resolved show ?thesis
    by (intro exI[of _ "resolve_events opts"] exI[of _ names]) (simp add: trace_simps)
qed

section \<open>The behaviour of Run\<close>

text \<open>C1: Once the group is resolved, Run visits the members in list order and stops at the first failure. Either every member is printed and handed to the delete workflow, every workflow call succeeds, and Run succeeds with the cluster those calls leave. Or there is a member x such that every member before x was printed and handed to the workflow and succeeded, x was printed and handed to the workflow in the cluster those calls left and failed with some error e, Run returns e unchanged, and no member after x is touched.\<close>

theorem Run_stops_at_first_failure:
  assumes "Name (AppGroupFlags opts) \<noteq> ''''"
    and "factory_answer opts w = Inr ()"
    and "registry_answer opts w = Inr apps"
    and "Run opts w = (r, w')"
  shows "(r = Inr ()
          \<and> list_all (\<lambda>res. res = Inr ()) (outcomes (depsFactory opts) (member_configs opts apps) (w_cluster w))
          \<and> w_log w' = w_log w @ resolve_events opts @ concat (map (\<lambda>a. member_events opts (app_name a)) apps)
          \<and> w_cluster w' = replay (depsFactory opts) (member_configs opts apps) (w_cluster w))
    \<or> (\<exists>pre x post e. apps = pre @ x # post \<and> r = Inl e
         \<and> list_all (\<lambda>res. res = Inr ()) (outcomes (depsFactory opts) (member_configs opts pre) (w_cluster w))
         \<and> w_log w' = w_log w @ resolve_events opts @ concat (map (\<lambda>a. member_events opts (app_name a)) (pre @ [x]))
         \<and> delete_run (depsFactory opts) (delete_config opts (app_name x))
             (replay (depsFactory opts) (member_configs opts pre) (w_cluster w)) = (Inl e, w_cluster w'))"
proof -
  have "delete_apps opts apps (w\<lparr>w_log := w_log w @ resolve_events opts\<rparr>) = (r, w')"
    using Run_resolved[OF assms(1-3)] assms(4) by simp
  from delete_apps_outcome[OF this] show ?thesis by simp
qed

theorem Run_stops_at_first_failure_witness:
  "(fst (Run abc_opts demo_world) = Inr ()
     \<and> list_all (\<lambda>res. res = Inr ()) (outcomes (depsFactory abc_opts)
         (member_configs abc_opts (demo_apps [''A'', ''B'', ''C''] ''ns1'')) (w_cluster demo_world))
     \<and> w_log (snd (Run abc_opts demo_world)) = w_log demo_world @ resolve_events abc_opts @
         concat (map (\<lambda>a. member_events abc_opts (app_name a)) (demo_apps [''A'', ''B'', ''C''] ''ns1''))
     \<and> w_cluster (snd (Run abc_opts demo_world)) = replay (depsFactory abc_opts)
         (member_configs abc_opts (demo_apps [''A'', ''B'', ''C''] ''ns1'')) (w_cluster demo_world))
   \<or> (\<exists>pre x post e. demo_apps [''A'', ''B'', ''C''] ''ns1'' = pre @ x # post
       \<and> fst (Run abc_opts demo_world) = Inl e
       \<and> list_all (\<lambda>res. res = Inr ()) (outcomes (depsFactory abc_opts) (member_configs abc_opts pre) (w_cluster demo_world))
       \<and> w_log (snd (Run abc_opts demo_world)) = w_log demo_world @ resolve_events abc_opts @
           concat (map (\<lambda>a. member_events abc_opts (app_name a)) (pre @ [x]))
       \<and> delete_run (depsFactory abc_opts) (delete_config abc_opts (app_name x))
           (replay (depsFactory abc_opts) (member_configs abc_opts pre) (w_cluster demo_world)) =
           (Inl e, w_cluster (snd (Run abc_opts demo_world))))"
proof -
  have h1: "Name (AppGroupFlags abc_opts) \<noteq> ''''"
    and h2: "factory_answer abc_opts demo_world = Inr ()"
    and h3: "registry_answer abc_opts demo_world = Inr (demo_apps [''A'', ''B'', ''C''] ''ns1'')"
    by (simp_all add: abc_opts_def demo_opts_def scripted_deps_def)
  have h4: "Run abc_opts demo_world = (fst (Run abc_opts demo_world), snd (Run abc_opts demo_world))"
    by simp
  show ?thesis using Run_stops_at_first_failure [OF h1 h2 h3 h4] .
qed

text \<open>C2: With an empty group name Run fails with the configuration error before any call: the world, cluster and trace, is left as it was.\<close>

theorem Run_rejects_empty_name:
  assumes "Name (AppGroupFlags opts) = ''''"
  shows "Run opts w = (Inl (Error ''Expected group name to be non-empty''), w)"
  using assms by (simp add: Run_def)

theorem Run_rejects_empty_name_witness:
  "Name (AppGroupFlags (demo_opts (scripted_deps (Inr ()) (Inr []) []) '''' ''ns2'' '''')) = '''' \<and>
   Run (demo_opts (scripted_deps (Inr ()) (Inr []) []) '''' ''ns2'' '''') demo_world =
     (Inl (Error ''Expected group name to be non-empty''), demo_world)"
proof -
  have h: "Name (AppGroupFlags (demo_opts (scripted_deps (Inr ()) (Inr []) []) '''' ''ns2'' '''')) = ''''"
    by (simp add: demo_opts_def)
  show ?thesis using h Run_rejects_empty_name[OF h] by simp
qed

text \<open>C3: When the registry listing fails, Run returns the registry's error unchanged after exactly the factory and listing calls: no member is printed or deleted and the cluster is unchanged.\<close>

theorem Run_registry_error:
  assumes "Name (AppGroupFlags opts) \<noteq> ''''"
    and "factory_answer opts w = Inr ()"
    and "registry_answer opts w = Inl e"
  shows "Run opts w = (Inl e, w\<lparr>w_log := w_log w @ resolve_events opts\<rparr>)"
  using assms by (simp add: Run_def emit_def resolve_events_def Let_def)

theorem Run_registry_error_witness:
  "Name (AppGroupFlags (demo_opts (scripted_deps (Inr ()) (Inl (Error ''list failed'')) []) ''g'' ''ns2'' '''')) \<noteq> ''''
   \<and> factory_answer (demo_opts (scripted_deps (Inr ()) (Inl (Error ''list failed'')) []) ''g'' ''ns2'' '''') demo_world
       = Inr ()
   \<and> registry_answer (demo_opts (scripted_deps (Inr ()) (Inl (Error ''list failed'')) []) ''g'' ''ns2'' '''') demo_world
       = Inl (Error ''list failed'')
   \<and> Run (demo_opts (scripted_deps (Inr ()) (Inl (Error ''list failed'')) []) ''g'' ''ns2'' '''') demo_world =
       (Inl (Error ''list failed''), demo_world\<lparr>w_log := w_log demo_world @
          resolve_events (demo_opts (scripted_deps (Inr ()) (Inl (Error ''list failed'')) []) ''g'' ''ns2'' '''')\<rparr>)"
proof -
  let ?o = "demo_opts (scripted_deps (Inr ()) (Inl (Error ''list failed'')) []) ''g'' ''ns2'' ''''"
  have h1: "Name (AppGroupFlags ?o) \<noteq> ''''" and h2: "factory_answer ?o demo_world = Inr ()"
    and h3: "registry_answer ?o demo_world = Inl (Error ''list failed'')"
    by (simp_all add: demo_opts_def scripted_deps_def)
  show ?thesis using h1 h2 h3 Run_registry_error [OF h1 h2 h3] by blast
qed

text \<open>C4: When building the clients fails, Run returns that error unchanged after the single factory call: the registry is never listed.\<close>

theorem Run_factory_error:
  assumes "Name (AppGroupFlags opts) \<noteq> ''''"
    and "factory_answer opts w = Inl e"
  shows "Run opts w = (Inl e, w\<lparr>w_log := w_log w @
           [FactoryClientsCall (NamespaceFlags (AppGroupFlags opts)) (AppNamespace (AppGroupFlags opts))]\<rparr>)"
  using assms by (simp add: Run_def emit_def Let_def)

theorem Run_factory_error_witness:
  "Name (AppGroupFlags (demo_opts (scripted_deps (Inl (Error ''no cluster'')) (Inr []) []) ''g'' ''ns2'' '''')) \<noteq> ''''
   \<and> factory_answer (demo_opts (scripted_deps (Inl (Error ''no cluster'')) (Inr []) []) ''g'' ''ns2'' '''') demo_world
       = Inl (Error ''no cluster'')
   \<and> Run (demo_opts (scripted_deps (Inl (Error ''no cluster'')) (Inr []) []) ''g'' ''ns2'' '''') demo_world =
       (Inl (Error ''no cluster''), demo_world\<lparr>w_log := w_log demo_world @
          [FactoryClientsCall \<lparr>ns_Name = ''ns2''\<rparr> '''']\<rparr>)"
proof -
  let ?o = "demo_opts (scripted_deps (Inl (Error ''no cluster'')) (Inr []) []) ''g'' ''ns2'' ''''"
  have h1: "Name (AppGroupFlags ?o) \<noteq> ''''"
    and h2: "factory_answer ?o demo_world = Inl (Error ''no cluster'')"
    by (simp_all add: demo_opts_def scripted_deps_def)
  have "NamespaceFlags (AppGroupFlags ?o) = \<lparr>ns_Name = ''ns2''\<rparr>" "AppNamespace (AppGroupFlags ?o) = ''''"
    by (simp_all add: demo_opts_def)
  then show ?thesis using h1 h2 Run_factory_error [OF h1 h2] by simp
qed

text \<open>C5: A group with no current members is a successful no-op: after the factory and listing calls Run succeeds without invoking the delete workflow.\<close>

theorem Run_no_members:
  assumes "Name (AppGroupFlags opts) \<noteq> ''''"
    and "factory_answer opts w = Inr ()"
    and "registry_answer opts w = Inr []"
  shows "Run opts w = (Inr (), w\<lparr>w_log := w_log w @ resolve_events opts\<rparr>)"
  using Run_resolved[OF assms] by simp

theorem Run_no_members_witness:
  "Name (AppGroupFlags (demo_opts (scripted_deps (Inr ()) (Inr []) []) ''g'' ''ns2'' '''')) \<noteq> ''''
   \<and> factory_answer (demo_opts (scripted_deps (Inr ()) (Inr []) []) ''g'' ''ns2'' '''') demo_world = Inr ()
   \<and> registry_answer (demo_opts (scripted_deps (Inr ()) (Inr []) []) ''g'' ''ns2'' '''') demo_world = Inr []
   \<and> Run (demo_opts (scripted_deps (Inr ()) (Inr []) []) ''g'' ''ns2'' '''') demo_world =
       (Inr (), demo_world\<lparr>w_log := w_log demo_world @
          resolve_events (demo_opts (scripted_deps (Inr ()) (Inr []) []) ''g'' ''ns2'' '''')\<rparr>)"
proof -
  let ?o = "demo_opts (scripted_deps (Inr ()) (Inr []) []) ''g'' ''ns2'' ''''"
  have h1: "Name (AppGroupFlags ?o) \<noteq> ''''" and h2: "factory_answer ?o demo_world = Inr ()"
    and h3: "registry_answer ?o demo_world = Inr []"
    by (simp_all add: demo_opts_def scripted_deps_def)
  show ?thesis using h1 h2 h3 Run_no_members [OF h1 h2 h3] by blast
qed

text \<open>C6: Once the group is resolved, the workflow calls of the run are made for a prefix of the listed members, in list order. Each carries that member's name, the group's namespace flags and app namespace, and the diff and apply flags of the group command unchanged. The progress lines of the run name the same members in the same order, with the resolved namespace.\<close>

theorem Run_delete_calls_share_config:
  assumes "Name (AppGroupFlags opts) \<noteq> ''''"
    and "factory_answer opts w = Inr ()"
    and "registry_answer opts w = Inr apps"
  shows "\<exists>k.
     delete_calls (w_log (snd (Run opts w))) = delete_calls (w_log w) @
       map (\<lambda>a. \<lparr>del_AppFlags = \<lparr>app_Name = app_name a,
                                app_NamespaceFlags = NamespaceFlags (AppGroupFlags opts),
                                app_AppNamespace = AppNamespace (AppGroupFlags opts)\<rparr>,
                 del_DiffFlags = DiffFlags (AppFlags opts),
                 del_ApplyFlags = ApplyFlags (AppFlags opts)\<rparr>) (take k apps)
   \<and> printed (w_log (snd (Run opts w))) = printed (w_log w) @
       map (\<lambda>a. progress_line (app_name a) (appNamespace opts)) (take k apps)"
proof -
  have "delete_apps opts apps (w\<lparr>w_log := w_log w @ resolve_events opts\<rparr>) = (fst (Run opts w), snd (Run opts w))"
    using Run_resolved[OF assms] by simp
  from delete_apps_outcome[OF this] show ?thesis
    apply (elim disjE exE conjE)
    subgoal by (intro exI[of _ "length apps"]) (simp add: trace_simps delete_config_def)
    subgoal for pre x post e by (intro exI[of _ "Suc (length pre)"]) (simp add: trace_simps delete_config_def)
    done
qed

theorem Run_delete_calls_share_config_witness:
  "\<exists>k.
     delete_calls (w_log (snd (Run abc_opts demo_world))) = delete_calls (w_log demo_world) @
       map (\<lambda>a. \<lparr>del_AppFlags = \<lparr>app_Name = app_name a,
                                app_NamespaceFlags = NamespaceFlags (AppGroupFlags abc_opts),
                                app_AppNamespace = AppNamespace (AppGroupFlags abc_opts)\<rparr>,
                 del_DiffFlags = DiffFlags (AppFlags abc_opts),
                 del_ApplyFlags = ApplyFlags (AppFlags abc_opts)\<rparr>) (take k (demo_apps [''A'', ''B'', ''C''] ''ns1''))
   \<and> printed (w_log (snd (Run abc_opts demo_world))) = printed (w_log demo_world) @
       map (\<lambda>a. progress_line (app_name a) (appNamespace abc_opts)) (take k (demo_apps [''A'', ''B'', ''C''] ''ns1''))"
proof -
  have h1: "Name (AppGroupFlags abc_opts) \<noteq> ''''"
    and h2: "factory_answer abc_opts demo_world = Inr ()"
    and h3: "registry_answer abc_opts demo_world = Inr (demo_apps [''A'', ''B'', ''C''] ''ns1'')"
    by (simp_all add: abc_opts_def demo_opts_def scripted_deps_def)
  show ?thesis using Run_delete_calls_share_config [OF h1 h2 h3] .
qed

text \<open>C7: When an explicit app namespace is set it takes precedence: every progress line of the run names that namespace.\<close>

theorem Run_progress_uses_app_namespace:
  assumes "AppNamespace (AppGroupFlags opts) \<noteq> ''''"
  shows "\<exists>names. printed (w_log (snd (Run opts w))) = printed (w_log w) @
           map (\<lambda>n. progress_line n (AppNamespace (AppGroupFlags opts))) names"
proof -
  obtain evs names where "w_log (snd (Run opts w)) = w_log w @ evs @ concat (map (member_events opts) names)"
      and "printed evs = []"
    using Run_trace by blast
  with assms show ?thesis
    by (intro exI[of _ names]) (simp add: trace_simps appNamespace_def)
qed

theorem Run_progress_uses_app_namespace_witness:
  "AppNamespace (AppGroupFlags abc_opts) \<noteq> ''''
   \<and> (\<exists>names. printed (w_log (snd (Run abc_opts demo_world))) = printed (w_log demo_world) @
          map (\<lambda>n. progress_line n (AppNamespace (AppGroupFlags abc_opts))) names)"
proof -
  have h: "AppNamespace (AppGroupFlags abc_opts) \<noteq> ''''"
    by (simp add: abc_opts_def demo_opts_def)
  show ?thesis using h Run_progress_uses_app_namespace [OF h] by blast
qed

end
