(* ===== verification/Lifecycle.thy ===== *)
theory Lifecycle
  imports GroupDelete
begin














end
