(* ===== verification/Registry.thy ===== *)
theory Registry
  imports GroupDelete
begin

text \<open>
  A concrete cluster for the collaborators of \<open>GroupDelete\<close>, modelled from the spec
  (sections 3, 4.1, 5 and 6) because \<open>ctlapp.Apps\<close>, \<open>cmdapp.FactoryClients\<close> and
  \<open>cmdapp.DeleteOptions.Run\<close> are outside \<open>src/\<close>. The cluster is the list of tracked
  applications in registry order, each with its namespace and its metadata labels
  (an association list, the first binding of a key counting). Listing returns the
  applications whose label \<open>appGroupAnnKey\<close> equals the group name, in the namespace
  scope \<open>FactoryClients\<close> built (the app namespace if set, else the namespace flag;
  the empty scope is all namespaces). The delete workflow removes the application of
  that name in its configured namespace; an application that is not there is a
  successful no-op, which is what makes re-running a group delete safe (spec,
  section 5). The lemmas give what a run of the command leaves in this cluster and
  that a second run in a named namespace resolves no member.
\<close>

record tracked =
  t_name :: string
  t_namespace :: string
  t_labels :: "(string \<times> string) list"

type_synonym cluster = "tracked list"

definition scope_of :: "namespace_flags \<Rightarrow> string \<Rightarrow> string" where
  "scope_of nsFlags appNs = (if appNs \<noteq> '''' then appNs else ns_Name nsFlags)"

definition in_scope :: "string \<Rightarrow> tracked \<Rightarrow> bool" where
  "in_scope scope t \<longleftrightarrow> scope = '''' \<or> t_namespace t = scope"

definition label_matches :: "(string \<times> string) list \<Rightarrow> tracked \<Rightarrow> bool" where
  "label_matches sel t \<longleftrightarrow> list_all (\<lambda>(k, v). map_of (t_labels t) k = Some v) sel"

definition reg_apps_list ::
  "namespace_flags \<Rightarrow> string \<Rightarrow> (string \<times> string) list \<Rightarrow> cluster \<Rightarrow> app list result" where
  "reg_apps_list nsFlags appNs sel c =
     Inr (map (\<lambda>t. \<lparr>app_name = t_name t, app_namespace = t_namespace t\<rparr>)
              (filter (\<lambda>t. in_scope (scope_of nsFlags appNs) t \<and> label_matches sel t) c))"

definition reg_delete_run :: "('d, 'a) app_delete_options \<Rightarrow> cluster \<Rightarrow> (unit, cluster) outcome" where
  "reg_delete_run opts c =
     (let f = del_AppFlags opts;
          ns = scope_of (app_NamespaceFlags f) (app_AppNamespace f)
      in (Inr (), filter (\<lambda>t. \<not> (t_name t = app_Name f \<and> t_namespace t = ns)) c))"

definition reg_deps :: "(cluster, 'd, 'a) deps" where
  "reg_deps =
     \<lparr>factory_clients = (\<lambda>_ _ _. Inr ()),
      apps_list = reg_apps_list,
      delete_run = reg_delete_run\<rparr>"

section \<open>Fixtures\<close>

text \<open>Group \<open>shop\<close> has members \<open>web\<close> and \<open>db\<close> in \<open>ns1\<close> and \<open>web\<close> in \<open>prod\<close>;
  \<open>cache\<close> in \<open>ns1\<close> is in no group.\<close>

definition shop_cluster :: cluster where
  "shop_cluster =
     [\<lparr>t_name = ''web'', t_namespace = ''ns1'', t_labels = [(appGroupAnnKey, ''shop'')]\<rparr>,
      \<lparr>t_name = ''db'', t_namespace = ''ns1'', t_labels = [(appGroupAnnKey, ''shop'')]\<rparr>,
      \<lparr>t_name = ''web'', t_namespace = ''prod'', t_labels = [(appGroupAnnKey, ''shop'')]\<rparr>,
      \<lparr>t_name = ''cache'', t_namespace = ''ns1'', t_labels = []\<rparr>]"

definition reg_opts :: "string \<Rightarrow> string \<Rightarrow> (cluster, nat, bool, unit) opts" where
  "reg_opts ns appns = demo_opts reg_deps ''shop'' ns appns"

definition reg_world :: "(cluster, nat, bool) gworld" where
  "reg_world = \<lparr>w_cluster = shop_cluster, w_log = []\<rparr>"

section \<open>Lemmas\<close>

lemma scope_of_appNamespace:
  "scope_of (NamespaceFlags (AppGroupFlags opts)) (AppNamespace (AppGroupFlags opts)) = appNamespace opts"
  by (simp add: scope_of_def appNamespace_def)

lemma delete_apps_reg:
  assumes "depsFactory opts = reg_deps"
  shows "delete_apps opts apps w =
           (Inr (), w\<lparr>w_cluster := filter (\<lambda>t. \<not> (t_namespace t = appNamespace opts \<and> t_name t \<in> set (map app_name apps)))
                                        (w_cluster w),
                     w_log := w_log w @ concat (map (\<lambda>a. member_events opts (app_name a)) apps)\<rparr>)"
proof (induction apps arbitrary: w)
  case Nil
  then show ?case by simp
next
  case (Cons a as)
  have "deleteApp opts (app_name a) w =
          (Inr (), w\<lparr>w_cluster := filter (\<lambda>t. \<not> (t_name t = app_name a \<and> t_namespace t = appNamespace opts)) (w_cluster w),
                     w_log := w_log w @ member_events opts (app_name a)\<rparr>)"
    using assms by (simp add: deleteApp_eq reg_deps_def reg_delete_run_def delete_config_def scope_of_appNamespace)
  moreover have "filter (\<lambda>t. \<not> (t_namespace t = appNamespace opts \<and> t_name t \<in> set (map app_name as)))
      (filter (\<lambda>t. \<not> (t_name t = app_name a \<and> t_namespace t = appNamespace opts)) (w_cluster w)) =
    filter (\<lambda>t. \<not> (t_namespace t = appNamespace opts \<and> t_name t \<in> set (map app_name (a # as)))) (w_cluster w)"
    by (auto simp: filter_filter intro: filter_cong)
  ultimately show ?case
    using Cons.IH by simp
qed

lemma reg_members_after_delete:
  assumes "scope \<noteq> ''''"
  shows "filter (\<lambda>t. in_scope scope t \<and> P t)
           (filter (\<lambda>t. \<not> (t_namespace t = scope \<and>
                              t_name t \<in> set (map t_name (filter (\<lambda>t. in_scope scope t \<and> P t) c)))) c) = []"
  using assms by (auto simp: filter_empty_conv in_scope_def)

lemma Run_reg:
  assumes "depsFactory opts = reg_deps"
    and "Name (AppGroupFlags opts) \<noteq> ''''"
  shows "Run opts w =
     (let members = filter (\<lambda>t. in_scope (appNamespace opts) t \<and> label_matches (group_selector opts) t) (w_cluster w)
      in (Inr (), w\<lparr>w_cluster := filter (\<lambda>t. \<not> (t_namespace t = appNamespace opts \<and> t_name t \<in> set (map t_name members)))
                                        (w_cluster w),
                   w_log := w_log w @ resolve_events opts @
                            concat (map (\<lambda>t. member_events opts (t_name t)) members)\<rparr>))"
proof -
  let ?members = "filter (\<lambda>t. in_scope (appNamespace opts) t \<and> label_matches (group_selector opts) t) (w_cluster w)"
  let ?apps = "map (\<lambda>t. \<lparr>app_name = t_name t, app_namespace = t_namespace t\<rparr>) ?members"
  have f: "factory_answer opts w = Inr ()" and l: "registry_answer opts w = Inr ?apps"
    using assms(1) by (simp_all add: reg_deps_def reg_apps_list_def scope_of_appNamespace)
  have "Run opts w = delete_apps opts ?apps (w\<lparr>w_log := w_log w @ resolve_events opts\<rparr>)"
    using assms(2) f l by (rule Run_resolved)
  also have "\<dots> = (Inr (), w\<lparr>w_cluster := filter (\<lambda>t. \<not> (t_namespace t = appNamespace opts \<and> t_name t \<in> set (map t_name ?members)))
                                        (w_cluster w),
                   w_log := w_log w @ resolve_events opts @
                            concat (map (\<lambda>t. member_events opts (t_name t)) ?members)\<rparr>)"
    using delete_apps_reg[OF assms(1)] by (simp add: comp_def image_image)
  finally show ?thesis by (simp add: Let_def)
qed

text \<open>C9: Against the spec's registry and workflow, with a named namespace scope, a
  group delete succeeds, and running it again at once resolves no member and
  succeeds without calling the delete workflow: re-running is the retry mechanism and
  it is idempotent.\<close>

theorem Run_rerun_resolves_nothing:
  assumes "depsFactory opts = reg_deps"
    and "Name (AppGroupFlags opts) \<noteq> ''''"
    and "appNamespace opts \<noteq> ''''"
  shows "fst (Run opts w) = Inr ()
    \<and> registry_answer opts (snd (Run opts w)) = Inr []
    \<and> Run opts (snd (Run opts w)) =
        (Inr (), (snd (Run opts w))\<lparr>w_log := w_log (snd (Run opts w)) @ resolve_events opts\<rparr>)"
proof -
  let ?P = "label_matches (group_selector opts)"
  let ?w1 = "snd (Run opts w)"
  have c1: "w_cluster ?w1 = filter (\<lambda>t. \<not> (t_namespace t = appNamespace opts \<and>
              t_name t \<in> set (map t_name (filter (\<lambda>t. in_scope (appNamespace opts) t \<and> ?P t) (w_cluster w)))))
              (w_cluster w)"
    using Run_reg[OF assms(1,2), of w] by (simp add: Let_def)
  have none: "filter (\<lambda>t. in_scope (appNamespace opts) t \<and> ?P t) (w_cluster ?w1) = []"
    unfolding c1 using assms(3) by (rule reg_members_after_delete)
  have "Run opts ?w1 = (Inr (), ?w1\<lparr>w_log := w_log ?w1 @ resolve_events opts\<rparr>)"
    using Run_reg[OF assms(1,2), of ?w1] none by (simp add: Let_def)
  moreover have "registry_answer opts ?w1 = Inr []"
    using assms(1) none by (simp add: reg_deps_def reg_apps_list_def scope_of_appNamespace)
  moreover have "fst (Run opts w) = Inr ()"
    using Run_reg[OF assms(1,2), of w] by (simp add: Let_def)
  ultimately show ?thesis by simp
qed

theorem Run_rerun_resolves_nothing_witness:
  "depsFactory (reg_opts ''ns1'' '''') = reg_deps \<and> Name (AppGroupFlags (reg_opts ''ns1'' '''')) \<noteq> ''''
   \<and> appNamespace (reg_opts ''ns1'' '''') \<noteq> ''''
   \<and> fst (Run (reg_opts ''ns1'' '''') reg_world) = Inr ()
   \<and> registry_answer (reg_opts ''ns1'' '''') (snd (Run (reg_opts ''ns1'' '''') reg_world)) = Inr []
   \<and> Run (reg_opts ''ns1'' '''') (snd (Run (reg_opts ''ns1'' '''') reg_world)) =
       (Inr (), (snd (Run (reg_opts ''ns1'' '''') reg_world))\<lparr>w_log :=
          w_log (snd (Run (reg_opts ''ns1'' '''') reg_world)) @ resolve_events (reg_opts ''ns1'' '''')\<rparr>)"
proof -
  have h1: "depsFactory (reg_opts ''ns1'' '''') = reg_deps"
    and h2: "Name (AppGroupFlags (reg_opts ''ns1'' '''')) \<noteq> ''''"
    and h3: "appNamespace (reg_opts ''ns1'' '''') \<noteq> ''''"
    by (simp_all add: reg_opts_def demo_opts_def appNamespace_def)
  show ?thesis using h1 h2 h3 Run_rerun_resolves_nothing [OF h1 h2 h3] by blast
qed

end
