(* ===== verification/RegistryRetry.thy ===== *)
theory RegistryRetry
  imports Registry
begin

text \<open>
  The spec's failure handling (section 4.2 and the concurrency paragraph: no retry
  inside a run, re-invoking the command is the retry) against the registry of
  \<open>Registry\<close>, with a delete workflow that fails on the members named in a list
  \<open>F\<close> and leaves the cluster unchanged on failure. \<open>group_members\<close> is what the registry
  lists for the group, \<open>remove_in ns names\<close> removes the applications of those names in
  namespace \<open>ns\<close>, and \<open>fail_result\<close> is the error of the first failing name. The lemmas
  give the result and cluster of a failing run, and show that a re-run with a working
  workflow removes exactly the group's members listed in the original cluster.
\<close>

definition reg_delete_run_failing ::
  "string list \<Rightarrow> ('d, 'a) app_delete_options \<Rightarrow> cluster \<Rightarrow> (unit, cluster) outcome" where
  "reg_delete_run_failing F opts c =
     (if app_Name (del_AppFlags opts) \<in> set F
      then (Inl (Error (''deleting failed: '' @ app_Name (del_AppFlags opts))), c)
      else reg_delete_run opts c)"

definition reg_deps_failing :: "string list \<Rightarrow> (cluster, 'd, 'a) deps" where
  "reg_deps_failing F = reg_deps\<lparr>delete_run := reg_delete_run_failing F\<rparr>"

definition fail_result :: "string list \<Rightarrow> string list \<Rightarrow> unit result" where
  "fail_result F names =
     (case find (\<lambda>n. n \<in> set F) names of
        None \<Rightarrow> Inr ()
      | Some n \<Rightarrow> Inl (Error (''deleting failed: '' @ n)))"

definition remove_in :: "string \<Rightarrow> string list \<Rightarrow> cluster \<Rightarrow> cluster" where
  "remove_in ns names c = filter (\<lambda>t. \<not> (t_name t \<in> set names \<and> t_namespace t = ns)) c"

definition group_members :: "('c, 'd, 'a, 'dep) opts \<Rightarrow> cluster \<Rightarrow> cluster" where
  "group_members opts c =
     filter (\<lambda>t. in_scope (appNamespace opts) t \<and> label_matches (group_selector opts) t) c"

definition fail_opts :: "(cluster, nat, bool, unit) opts" where
  "fail_opts = demo_opts (reg_deps_failing [''db'']) ''shop'' ''ns1'' ''''"

lemma remove_in_remove_in:
  "remove_in ns names (remove_in ns [n] c) = remove_in ns (n # names) c"
  by (auto simp: remove_in_def filter_filter intro: filter_cong)

lemma remove_in_twice:
  assumes "set D \<subseteq> set (map t_name (filter Q c))"
  shows "remove_in ns (map t_name (filter Q (remove_in ns D c))) (remove_in ns D c) =
         remove_in ns (map t_name (filter Q c)) c"
  unfolding remove_in_def filter_filter
  using assms by (intro filter_cong) auto

lemma delete_apps_reg_failing:
  assumes "depsFactory opts = reg_deps_failing F"
  shows "delete_apps opts apps w =
     (let names = map app_name apps;
          done = takeWhile (\<lambda>n. n \<notin> set F) names
      in (fail_result F names,
          w\<lparr>w_cluster := remove_in (appNamespace opts) done (w_cluster w),
            w_log := w_log w @ concat (map (member_events opts) (done @ take 1 (dropWhile (\<lambda>n. n \<notin> set F) names)))\<rparr>))"
proof (induction apps arbitrary: w)
  case Nil
  then show ?case by (simp add: fail_result_def remove_in_def)
next
  case (Cons a as)
  show ?case
  proof (cases "app_name a \<in> set F")
    case True
    with assms show ?thesis
      by (simp add: deleteApp_eq reg_deps_failing_def reg_delete_run_failing_def delete_config_def
                    fail_result_def remove_in_def)
  next
    case False
    have "deleteApp opts (app_name a) w =
            (Inr (), w\<lparr>w_cluster := remove_in (appNamespace opts) [app_name a] (w_cluster w),
                       w_log := w_log w @ member_events opts (app_name a)\<rparr>)"
      using assms False
      by (simp add: deleteApp_eq reg_deps_failing_def reg_delete_run_failing_def reg_delete_run_def
                    delete_config_def scope_of_appNamespace remove_in_def)
    with False Cons.IH show ?thesis
      by (simp add: Let_def fail_result_def remove_in_remove_in)
  qed
qed

lemma Run_reg_failing:
  assumes "depsFactory opts = reg_deps_failing F"
    and "Name (AppGroupFlags opts) \<noteq> ''''"
  shows "Run opts w =
     (let names = map t_name (group_members opts (w_cluster w));
          done = takeWhile (\<lambda>n. n \<notin> set F) names
      in (fail_result F names,
          w\<lparr>w_cluster := remove_in (appNamespace opts) done (w_cluster w),
            w_log := w_log w @ resolve_events opts @
                     concat (map (member_events opts) (done @ take 1 (dropWhile (\<lambda>n. n \<notin> set F) names)))\<rparr>))"
proof -
  let ?apps = "map (\<lambda>t. \<lparr>app_name = t_name t, app_namespace = t_namespace t\<rparr>) (group_members opts (w_cluster w))"
  have f: "factory_answer opts w = Inr ()" and l: "registry_answer opts w = Inr ?apps"
    using assms(1) by (simp_all add: reg_deps_failing_def reg_deps_def reg_apps_list_def
                                     scope_of_appNamespace group_members_def)
  have "Run opts w = delete_apps opts ?apps (w\<lparr>w_log := w_log w @ resolve_events opts\<rparr>)"
    using assms(2) f l by (rule Run_resolved)
  then show ?thesis
    using delete_apps_reg_failing[OF assms(1), of ?apps] by (simp add: Let_def comp_def)
qed

lemma Run_reg_remove_in:
  assumes "depsFactory opts = reg_deps"
    and "Name (AppGroupFlags opts) \<noteq> ''''"
  shows "fst (Run opts w) = Inr ()
    \<and> w_cluster (snd (Run opts w)) =
        remove_in (appNamespace opts) (map t_name (group_members opts (w_cluster w))) (w_cluster w)"
  using Run_reg[OF assms, of w]
  by (auto simp: Let_def remove_in_def group_members_def intro: filter_cong)

text \<open>C12: Against the spec's registry with a delete workflow that fails on the
  members named in F, a group delete returns the error of the first failing member in
  registry order (success if there is none), and the cluster it leaves has lost
  exactly the members before that one, in the group's namespace: the failing member
  and the later ones are still there.\<close>

theorem Run_failing_workflow_keeps_rest:
  assumes "depsFactory opts = reg_deps_failing F"
    and "Name (AppGroupFlags opts) \<noteq> ''''"
  shows "fst (Run opts w) = fail_result F (map t_name (group_members opts (w_cluster w)))
    \<and> w_cluster (snd (Run opts w)) =
        remove_in (appNamespace opts)
          (takeWhile (\<lambda>n. n \<notin> set F) (map t_name (group_members opts (w_cluster w)))) (w_cluster w)"
  using Run_reg_failing[OF assms, of w] by (simp add: Let_def)

theorem Run_failing_workflow_keeps_rest_witness:
  "depsFactory fail_opts = reg_deps_failing [''db''] \<and> Name (AppGroupFlags fail_opts) \<noteq> ''''
   \<and> fst (Run fail_opts reg_world) = fail_result [''db''] (map t_name (group_members fail_opts (w_cluster reg_world)))
   \<and> w_cluster (snd (Run fail_opts reg_world)) =
       remove_in (appNamespace fail_opts)
         (takeWhile (\<lambda>n. n \<notin> set [''db'']) (map t_name (group_members fail_opts (w_cluster reg_world))))
         (w_cluster reg_world)"
proof -
  have h1: "depsFactory fail_opts = reg_deps_failing [''db'']"
    and h2: "Name (AppGroupFlags fail_opts) \<noteq> ''''"
    by (simp_all add: fail_opts_def demo_opts_def)
  show ?thesis using h1 h2 Run_failing_workflow_keeps_rest [OF h1 h2] by blast
qed

text \<open>C13: The spec's retry. After a group delete that failed part-way, running the command again once the workflow works succeeds. The cluster it leaves has lost exactly the group's members, in the group's namespace, as listed in the original cluster: the members the failed run deleted and those it left behind alike.\<close>

theorem Run_retry_completes_group:
  assumes "depsFactory opts = reg_deps_failing F"
    and "Name (AppGroupFlags opts) \<noteq> ''''"
  shows "fst (Run (opts\<lparr>depsFactory := reg_deps\<rparr>) (snd (Run opts w))) = Inr ()
    \<and> w_cluster (snd (Run (opts\<lparr>depsFactory := reg_deps\<rparr>) (snd (Run opts w)))) =
        remove_in (appNamespace opts) (map t_name (group_members opts (w_cluster w))) (w_cluster w)"
proof -
  let ?o = "opts\<lparr>depsFactory := reg_deps\<rparr>"
  let ?names = "map t_name (group_members opts (w_cluster w))"
  let ?done = "takeWhile (\<lambda>n. n \<notin> set F) ?names"
  have o: "depsFactory ?o = reg_deps" "Name (AppGroupFlags ?o) \<noteq> ''''"
    and same: "appNamespace ?o = appNamespace opts" "group_selector ?o = group_selector opts"
    using assms(2) by (simp_all add: appNamespace_def group_selector_def)
  have c1: "w_cluster (snd (Run opts w)) = remove_in (appNamespace opts) ?done (w_cluster w)"
    using Run_reg_failing[OF assms, of w] by (simp add: Let_def)
  have sub: "set ?done \<subseteq> set ?names"
    by (auto dest: set_takeWhileD)
  show ?thesis
    using Run_reg_remove_in[OF o, of "snd (Run opts w)"] remove_in_twice[OF sub[unfolded group_members_def]]
    by (simp add: same c1 group_members_def)
qed

theorem Run_retry_completes_group_witness:
  "fst (Run (fail_opts\<lparr>depsFactory := reg_deps\<rparr>) (snd (Run fail_opts reg_world))) = Inr ()
   \<and> w_cluster (snd (Run (fail_opts\<lparr>depsFactory := reg_deps\<rparr>) (snd (Run fail_opts reg_world)))) =
       remove_in (appNamespace fail_opts) (map t_name (group_members fail_opts (w_cluster reg_world)))
         (w_cluster reg_world)"
proof -
  have h1: "depsFactory fail_opts = reg_deps_failing [''db'']"
    and h2: "Name (AppGroupFlags fail_opts) \<noteq> ''''"
    by (simp_all add: fail_opts_def demo_opts_def)
  show ?thesis using Run_retry_completes_group [OF h1 h2] .
qed

end
