(* ===== verification/RegistryOrder.thy ===== *)
theory RegistryOrder
  imports RegistryRetry "HOL-Library.Multiset"
begin

text \<open>
  Two group deletes run one after the other against the registry of \<open>Registry\<close>.
  Each run removes, in the namespace it resolves to, the names the registry lists for
  its group; \<open>remove_in_members\<close> shows that the second run removes, on top of the first
  one's names, exactly the names its group has in the original cluster, whatever the
  first removed. So the order in which two groups are deleted does not matter: both
  orders succeed and leave the same cluster. Within one group, the order in which the
  registry lists the members (which the spec leaves open) does not matter either with
  a working workflow: the loop's outcome depends on the multiset of members only. With
  a workflow that fails on a member it does, which a closed instance shows.
\<close>

definition shop_cache_cluster :: cluster where
  "shop_cache_cluster =
     shop_cluster @ [\<lparr>t_name = ''redis'', t_namespace = ''ns1'', t_labels = [(appGroupAnnKey, ''cache'')]\<rparr>]"

lemma remove_in_set_eq:
  "set names = set names' \<Longrightarrow> remove_in ns names c = remove_in ns names' c"
  by (simp add: remove_in_def)

lemma remove_in_members:
  "remove_in ns (map t_name (filter Q (remove_in ns N c))) (remove_in ns N c) =
   remove_in ns (N @ map t_name (filter Q c)) c"
  unfolding remove_in_def filter_filter
  by (intro filter_cong) auto

lemma Run_reg_twice:
  assumes "depsFactory o1 = reg_deps" "Name (AppGroupFlags o1) \<noteq> ''''"
    and "depsFactory o2 = reg_deps" "Name (AppGroupFlags o2) \<noteq> ''''"
    and "appNamespace o1 = appNamespace o2"
  shows "fst (Run o2 (snd (Run o1 w))) = Inr ()
    \<and> w_cluster (snd (Run o2 (snd (Run o1 w)))) =
        remove_in (appNamespace o1)
          (map t_name (group_members o1 (w_cluster w)) @ map t_name (group_members o2 (w_cluster w)))
          (w_cluster w)"
  using Run_reg_remove_in[OF assms(1,2), of w] Run_reg_remove_in[OF assms(3,4), of "snd (Run o1 w)"]
        remove_in_members[of "appNamespace o1" "\<lambda>t. in_scope (appNamespace o1) t \<and> label_matches (group_selector o2) t"
                             "map t_name (group_members o1 (w_cluster w))" "w_cluster w"]
  by (simp add: group_members_def assms(5))

text \<open>C18: Against the spec's registry and workflow, deleting two groups in the same
  namespace scope one after the other gives the same result in either order: both
  runs succeed, and in either order the cluster left has lost exactly the members of
  both groups, in that namespace, as listed in the original cluster.\<close>

theorem Run_group_deletes_commute:
  assumes "depsFactory o1 = reg_deps" "Name (AppGroupFlags o1) \<noteq> ''''"
    and "depsFactory o2 = reg_deps" "Name (AppGroupFlags o2) \<noteq> ''''"
    and "appNamespace o1 = appNamespace o2"
  shows "fst (Run o2 (snd (Run o1 w))) = Inr () \<and> fst (Run o1 (snd (Run o2 w))) = Inr ()
    \<and> w_cluster (snd (Run o2 (snd (Run o1 w)))) =
        remove_in (appNamespace o1)
          (map t_name (group_members o1 (w_cluster w)) @ map t_name (group_members o2 (w_cluster w)))
          (w_cluster w)
    \<and> w_cluster (snd (Run o1 (snd (Run o2 w)))) =
        remove_in (appNamespace o1)
          (map t_name (group_members o1 (w_cluster w)) @ map t_name (group_members o2 (w_cluster w)))
          (w_cluster w)"
proof -
  have "set (map t_name (group_members o2 (w_cluster w)) @ map t_name (group_members o1 (w_cluster w))) =
        set (map t_name (group_members o1 (w_cluster w)) @ map t_name (group_members o2 (w_cluster w)))"
    by auto
  then show ?thesis
    using Run_reg_twice[OF assms] Run_reg_twice[OF assms(3,4,1,2) assms(5)[symmetric]] assms(5)
    by (auto intro: remove_in_set_eq)
qed

theorem Run_group_deletes_commute_witness:
  "fst (Run (reg_opts ''ns1'' '''') (snd (Run (demo_opts reg_deps ''cache'' ''ns1'' '''')
                 \<lparr>w_cluster = shop_cache_cluster, w_log = []\<rparr>))) = Inr ()
   \<and> w_cluster (snd (Run (demo_opts reg_deps ''cache'' ''ns1'' '''') (snd (Run (reg_opts ''ns1'' '''')
                 \<lparr>w_cluster = shop_cache_cluster, w_log = []\<rparr>)))) =
     remove_in (appNamespace (reg_opts ''ns1'' ''''))
       (map t_name (group_members (reg_opts ''ns1'' '''') shop_cache_cluster) @
        map t_name (group_members (demo_opts reg_deps ''cache'' ''ns1'' '''') shop_cache_cluster))
       shop_cache_cluster"
proof -
  have h1: "depsFactory (reg_opts ''ns1'' '''') = reg_deps"
    and h2: "Name (AppGroupFlags (reg_opts ''ns1'' '''')) \<noteq> ''''"
    and h3: "depsFactory (demo_opts reg_deps ''cache'' ''ns1'' '''') = reg_deps"
    and h4: "Name (AppGroupFlags (demo_opts reg_deps ''cache'' ''ns1'' '''')) \<noteq> ''''"
    and h5: "appNamespace (reg_opts ''ns1'' '''') = appNamespace (demo_opts reg_deps ''cache'' ''ns1'' '''')"
    by (simp_all add: reg_opts_def demo_opts_def appNamespace_def)
  show ?thesis using Run_group_deletes_commute [OF h1 h2 h3 h4 h5, where w = "\<lparr>w_cluster = shop_cache_cluster, w_log = []\<rparr>"]
    by simp
qed

text \<open>C21: The spec leaves the order in which the registry lists a group's members
  open. Against the spec's registry and a working workflow it does not matter: two
  listings with the same members, in any order, give the same result and the same
  cluster.\<close>

theorem delete_apps_order_independent:
  assumes "depsFactory opts = reg_deps" and "mset apps = mset apps'"
  shows "fst (delete_apps opts apps w) = fst (delete_apps opts apps' w)
    \<and> w_cluster (snd (delete_apps opts apps w)) = w_cluster (snd (delete_apps opts apps' w))"
proof -
  have "set (map app_name apps) = set (map app_name apps')"
    using assms(2) by (metis mset_map mset_eq_setD)
  then show ?thesis
    by (simp add: delete_apps_reg[OF assms(1)])
qed

theorem delete_apps_order_independent_witness:
  "fst (delete_apps (reg_opts ''ns1'' '''') (demo_apps [''web'', ''db''] ''ns1'') reg_world) =
     fst (delete_apps (reg_opts ''ns1'' '''') (demo_apps [''db'', ''web''] ''ns1'') reg_world)
   \<and> w_cluster (snd (delete_apps (reg_opts ''ns1'' '''') (demo_apps [''web'', ''db''] ''ns1'') reg_world)) =
     w_cluster (snd (delete_apps (reg_opts ''ns1'' '''') (demo_apps [''db'', ''web''] ''ns1'') reg_world))"
proof -
  have h1: "depsFactory (reg_opts ''ns1'' '''') = reg_deps"
    by (simp add: reg_opts_def demo_opts_def)
  have h2: "mset (demo_apps [''web'', ''db''] ''ns1'') = mset (demo_apps [''db'', ''web''] ''ns1'')"
    by (simp add: demo_apps_def add_mset_commute)
  show ?thesis using delete_apps_order_independent [OF h1 h2] .
qed

lemma delete_apps_order_matters_on_failure:
  "w_cluster (snd (delete_apps fail_opts (demo_apps [''web'', ''db''] ''ns1'') reg_world)) \<noteq>
   w_cluster (snd (delete_apps fail_opts (demo_apps [''db'', ''web''] ''ns1'') reg_world))"
  by (simp add: fail_opts_def demo_opts_def demo_apps_def reg_world_def shop_cluster_def deleteApp_eq
                reg_deps_failing_def reg_deps_def reg_delete_run_failing_def reg_delete_run_def
                delete_config_def scope_of_def Let_def)

end
