(* ===== verification/ListedNamespace.thy ===== *)
theory ListedNamespace
  imports RegistryRetry
begin

text \<open>
  A reference for the finding on line 69 of delete.go: the loop hands \<open>deleteApp\<close>
  only \<open>app.Name()\<close>, so the workflow deletes in the group's resolved namespace, not
  in the namespace the registry listed the member in. \<open>Run_listed\<close> is \<open>Run\<close> with the
  loop and \<open>deleteApp\<close> changed in that one respect: each member's configuration
  carries its listed namespace as the app namespace (\<open>delete_config_listed\<close>), and its
  progress line names that namespace. Nothing else differs. Against the spec's
  registry, the lemmas show that the code and the reference return the same result
  and leave the same cluster whenever the scope is a named namespace, the reference
  removing exactly the listed (name, namespace) pairs: in a named scope the dropped
  namespace makes no difference, and the two can part only in the all-namespaces
  scope.
\<close>

definition delete_config_listed :: "('c, 'd, 'a, 'dep) opts \<Rightarrow> app \<Rightarrow> ('d, 'a) app_delete_options" where
  "delete_config_listed opts app =
     (let cfg = delete_config opts (app_name app)
      in cfg\<lparr>del_AppFlags := (del_AppFlags cfg)\<lparr>app_AppNamespace := app_namespace app\<rparr>\<rparr>)"

definition deleteApp_listed ::
  "('c, 'd, 'a, 'dep) opts \<Rightarrow> app \<Rightarrow> ('c, 'd, 'a) gworld \<Rightarrow> (unit, ('c, 'd, 'a) gworld) outcome" where
  "deleteApp_listed opts app w =
     (let w1 = emit (PrintLine (progress_line (app_name app) (app_namespace app))) w;
          deleteOpts = delete_config_listed opts app;
          w2 = emit (DeleteRunCall deleteOpts) w1;
          (err, c') = delete_run (depsFactory opts) deleteOpts (w_cluster w2)
      in (err, w2\<lparr>w_cluster := c'\<rparr>))"

fun delete_apps_listed ::
  "('c, 'd, 'a, 'dep) opts \<Rightarrow> app list \<Rightarrow> ('c, 'd, 'a) gworld \<Rightarrow> (unit, ('c, 'd, 'a) gworld) outcome" where
  "delete_apps_listed opts [] w = (Inr (), w)"
| "delete_apps_listed opts (app # appsInGroup) w =
     (case deleteApp_listed opts app w of
        (Inl err, w') \<Rightarrow> (Inl err, w')
      | (Inr _, w') \<Rightarrow> delete_apps_listed opts appsInGroup w')"

definition Run_listed ::
  "('c, 'd, 'a, 'dep) opts \<Rightarrow> ('c, 'd, 'a) gworld \<Rightarrow> (unit, ('c, 'd, 'a) gworld) outcome" where
  "Run_listed opts w =
     (if length (Name (AppGroupFlags opts)) = 0
      then (Inl (Error ''Expected group name to be non-empty''), w)
      else
        (let g = AppGroupFlags opts;
             w1 = emit (FactoryClientsCall (NamespaceFlags g) (AppNamespace g)) w
         in case factory_clients (depsFactory opts) (NamespaceFlags g) (AppNamespace g) (w_cluster w1) of
              Inl err \<Rightarrow> (Inl err, w1)
            | Inr _ \<Rightarrow>
                (let sel = group_selector opts;
                     w2 = emit (AppsListCall sel) w1
                 in case apps_list (depsFactory opts) (NamespaceFlags g) (AppNamespace g) sel (w_cluster w2) of
                      Inl err \<Rightarrow> (Inl err, w2)
                    | Inr appsInGroup \<Rightarrow> delete_apps_listed opts appsInGroup w2)))"

definition remove_pairs :: "(string \<times> string) list \<Rightarrow> cluster \<Rightarrow> cluster" where
  "remove_pairs ps c = filter (\<lambda>t. (t_name t, t_namespace t) \<notin> set ps) c"

definition member_pairs :: "('c, 'd, 'a, 'dep) opts \<Rightarrow> cluster \<Rightarrow> (string \<times> string) list" where
  "member_pairs opts c = map (\<lambda>t. (t_name t, t_namespace t)) (group_members opts c)"

definition namespaced :: "cluster \<Rightarrow> bool" where
  "namespaced c \<longleftrightarrow> list_all (\<lambda>t. t_namespace t \<noteq> '''') c"

lemma deleteApp_listed_reg:
  assumes "depsFactory opts = reg_deps" and "app_namespace a \<noteq> ''''"
  shows "fst (deleteApp_listed opts a w) = Inr ()
    \<and> w_cluster (snd (deleteApp_listed opts a w)) = remove_pairs [(app_name a, app_namespace a)] (w_cluster w)"
  using assms
  by (auto simp: deleteApp_listed_def delete_config_listed_def delete_config_def reg_deps_def
                 reg_delete_run_def scope_of_def remove_pairs_def Let_def emit_def intro: filter_cong)

lemma delete_apps_listed_reg:
  assumes "depsFactory opts = reg_deps"
  shows "list_all (\<lambda>a. app_namespace a \<noteq> '''') apps \<Longrightarrow>
    fst (delete_apps_listed opts apps w) = Inr ()
    \<and> w_cluster (snd (delete_apps_listed opts apps w)) =
        remove_pairs (map (\<lambda>a. (app_name a, app_namespace a)) apps) (w_cluster w)"
proof (induction apps arbitrary: w)
  case Nil
  then show ?case by (simp add: remove_pairs_def)
next
  case (Cons a as)
  obtain w' where d: "deleteApp_listed opts a w = (Inr (), w')"
    and c: "w_cluster w' = remove_pairs [(app_name a, app_namespace a)] (w_cluster w)"
    using deleteApp_listed_reg[OF assms, of a w] Cons.prems
    by (cases "deleteApp_listed opts a w") auto
  with Cons show ?case
    by (auto simp: remove_pairs_def filter_filter intro: filter_cong)
qed

lemma Run_listed_reg:
  assumes "depsFactory opts = reg_deps" and "Name (AppGroupFlags opts) \<noteq> ''''"
    and "namespaced (group_members opts (w_cluster w))"
  shows "fst (Run_listed opts w) = Inr ()
    \<and> w_cluster (snd (Run_listed opts w)) = remove_pairs (member_pairs opts (w_cluster w)) (w_cluster w)"
proof -
  let ?apps = "map (\<lambda>t. \<lparr>app_name = t_name t, app_namespace = t_namespace t\<rparr>) (group_members opts (w_cluster w))"
  have run: "Run_listed opts w = delete_apps_listed opts ?apps (w\<lparr>w_log := w_log w @ resolve_events opts\<rparr>)"
    using assms(1,2)
    by (simp add: Run_listed_def Let_def emit_def resolve_events_def reg_deps_def reg_apps_list_def
                  scope_of_appNamespace group_members_def)
  have "list_all (\<lambda>a. app_namespace a \<noteq> '''') ?apps"
    using assms(3) by (auto simp: namespaced_def list_all_iff)
  from delete_apps_listed_reg[OF assms(1) this] show ?thesis
    by (simp add: run member_pairs_def comp_def)
qed

lemma remove_pairs_named_scope:
  assumes "s \<noteq> ''''"
  shows "remove_pairs (map (\<lambda>t. (t_name t, t_namespace t)) (filter (\<lambda>t. in_scope s t \<and> P t) c)) c =
         remove_in s (map t_name (filter (\<lambda>t. in_scope s t \<and> P t) c)) c"
  using assms unfolding remove_pairs_def remove_in_def
  by (intro filter_cong) (auto simp: in_scope_def)

text \<open>C19: Against the spec's registry, when the group is scoped to a named namespace
  the code and the reference that deletes each member in its listed namespace are
  indistinguishable on the cluster: both succeed and leave the same cluster.\<close>

theorem Run_agrees_with_listed_in_named_scope:
  assumes "depsFactory opts = reg_deps" and "Name (AppGroupFlags opts) \<noteq> ''''"
    and "appNamespace opts \<noteq> ''''"
  shows "fst (Run opts w) = fst (Run_listed opts w)
    \<and> w_cluster (snd (Run opts w)) = w_cluster (snd (Run_listed opts w))"
proof -
  have "namespaced (group_members opts (w_cluster w))"
    using assms(3) by (auto simp: namespaced_def list_all_iff group_members_def in_scope_def)
  with Run_listed_reg[OF assms(1,2)] Run_reg_remove_in[OF assms(1,2), of w]
       remove_pairs_named_scope[OF assms(3)]
  show ?thesis
    by (simp add: member_pairs_def group_members_def)
qed

theorem Run_agrees_with_listed_in_named_scope_witness:
  "fst (Run (reg_opts ''ns1'' '''') reg_world) = fst (Run_listed (reg_opts ''ns1'' '''') reg_world)
   \<and> w_cluster (snd (Run (reg_opts ''ns1'' '''') reg_world)) =
     w_cluster (snd (Run_listed (reg_opts ''ns1'' '''') reg_world))"
proof -
  have h1: "depsFactory (reg_opts ''ns1'' '''') = reg_deps"
    and h2: "Name (AppGroupFlags (reg_opts ''ns1'' '''')) \<noteq> ''''"
    and h3: "appNamespace (reg_opts ''ns1'' '''') \<noteq> ''''"
    by (simp_all add: reg_opts_def demo_opts_def appNamespace_def)
  show ?thesis using Run_agrees_with_listed_in_named_scope [OF h1 h2 h3] .
qed

end
