(* ===== verification/ProgressLine.thy ===== *)
theory ProgressLine
  imports GroupDelete
begin

text \<open>
  The progress notice of \<open>deleteApp\<close> (delete.go, lines 79--80) read back. The spec
  (section 4.1) asks for a human-readable notice naming the application and its
  resolved namespace; \<open>parse_progress_line\<close> is the reader of the format
  \<open>--- deleting app 'NAME' (namespace: NS)\<close>, and the lemmas show that it recovers the
  name and namespace of every line a run prints, as long as the name has no single
  quote, and that without that condition two different members can print the same
  line. Kubernetes object names cannot contain a quote, so the condition holds for
  every name the registry can list.
\<close>

definition quote_char :: char where
  "quote_char = CHR 0x27"

definition line_prefix :: string where
  "line_prefix = ''--- deleting app '' @ [quote_char]"

definition ns_infix :: string where
  "ns_infix = [quote_char] @ '' (namespace: ''"

definition parse_progress_line :: "string \<Rightarrow> (string \<times> string) option" where
  "parse_progress_line s =
     (if take (length line_prefix) s \<noteq> line_prefix then None
      else
        (let rest = drop (length line_prefix) s;
             name = takeWhile (\<lambda>c. c \<noteq> quote_char) rest;
             rest2 = drop (length name) rest
         in if take (length ns_infix) rest2 \<noteq> ns_infix then None
            else
              (let rest3 = drop (length ns_infix) rest2
               in if rest3 = [] \<or> last rest3 \<noteq> CHR '')'' then None
                  else Some (name, butlast rest3))))"

lemma progress_line_split:
  "progress_line name ns = line_prefix @ name @ ns_infix @ ns @ '')''"
  by (simp add: progress_line_def line_prefix_def ns_infix_def quote_char_def)

lemma parse_progress_line_inverse:
  assumes "quote_char \<notin> set name"
  shows "parse_progress_line (progress_line name ns) = Some (name, ns)"
proof -
  have tw: "takeWhile (\<lambda>c. c \<noteq> quote_char) (name @ ns_infix @ ns @ '')'') = name"
    using assms by (auto simp: takeWhile_append ns_infix_def)
  show ?thesis
    by (simp add: parse_progress_line_def progress_line_split tw butlast_append)
qed


lemma progress_line_ambiguous_with_quote:
  "progress_line (''a'' @ ns_infix @ ''b'') ''c'' = progress_line ''a'' (''b'' @ ns_infix @ ''c'')
   \<and> (''a'' @ ns_infix @ ''b'', ''c'') \<noteq> (''a'', ''b'' @ ns_infix @ ''c'')"
  by (simp add: progress_line_split ns_infix_def quote_char_def)

text \<open>C11: Every progress line a run prints names the application and the namespace
  of the workflow call that follows it: decoding the new lines of the trace gives, in
  order, the member name of each new workflow call with the run's resolved app
  namespace, provided no member name contains a single quote.\<close>

theorem Run_progress_lines_decode:
  assumes "\<forall>c\<in>set (delete_calls (w_log (snd (Run opts w)))). quote_char \<notin> set (app_Name (del_AppFlags c))"
  shows "map parse_progress_line (drop (length (printed (w_log w))) (printed (w_log (snd (Run opts w))))) =
         map (\<lambda>c. Some (app_Name (del_AppFlags c), appNamespace opts))
             (drop (length (delete_calls (w_log w))) (delete_calls (w_log (snd (Run opts w)))))"
proof -
  obtain evs names where log: "w_log (snd (Run opts w)) = w_log w @ evs @ concat (map (member_events opts) names)"
      and "delete_calls evs = []" and "printed evs = []"
    using Run_trace by blast
  then have p: "printed (w_log (snd (Run opts w))) = printed (w_log w) @ map (\<lambda>n. progress_line n (appNamespace opts)) names"
    and d: "delete_calls (w_log (snd (Run opts w))) = delete_calls (w_log w) @ map (delete_config opts) names"
    by (simp_all add: trace_simps)
  have "\<forall>n\<in>set names. quote_char \<notin> set n"
  proof
    fix n assume "n \<in> set names"
    then have "delete_config opts n \<in> set (delete_calls (w_log (snd (Run opts w))))"
      by (simp add: d)
    with assms have "quote_char \<notin> set (app_Name (del_AppFlags (delete_config opts n)))"
      by blast
    then show "quote_char \<notin> set n" by (simp add: delete_config_def)
  qed
  then show ?thesis
    by (simp add: p d delete_config_def parse_progress_line_inverse)
qed

theorem Run_progress_lines_decode_witness:
  "map parse_progress_line (drop (length (printed (w_log demo_world))) (printed (w_log (snd (Run abc_opts demo_world))))) =
     map (\<lambda>c. Some (app_Name (del_AppFlags c), appNamespace abc_opts))
         (drop (length (delete_calls (w_log demo_world))) (delete_calls (w_log (snd (Run abc_opts demo_world)))))"
proof -
  have h: "\<forall>c\<in>set (delete_calls (w_log (snd (Run abc_opts demo_world)))). quote_char \<notin> set (app_Name (del_AppFlags c))"
    by (simp add: Run_def abc_opts_def demo_opts_def scripted_deps_def demo_apps_def demo_world_def
                  deleteApp_eq Let_def emit_def resolve_events_def delete_config_def member_events_def quote_char_def)
  show ?thesis using h Run_progress_lines_decode [OF h] by blast
qed

end
