(* ===== verification/CallBound.thy ===== *)
theory CallBound
  imports GroupDelete
begin

text \<open>
  A bound on the work a run does: once the registry has listed n members, a run of
  \<open>Run\<close> (delete.go, lines 53--76) calls the delete workflow at most n times, and
  exactly n times when it succeeds. The proof reads the outcome of the loop from
  \<open>GroupDelete.delete_apps_outcome\<close>.
\<close>

text \<open>C16: When the registry lists n members, a run calls the delete workflow at most
  n times, and exactly n times when it succeeds.\<close>

theorem Run_delete_calls_bounded:
  assumes "Name (AppGroupFlags opts) \<noteq> ''''"
    and "factory_answer opts w = Inr ()"
    and "registry_answer opts w = Inr apps"
  shows "length (delete_calls (w_log (snd (Run opts w)))) \<le> length (delete_calls (w_log w)) + length apps
    \<and> (fst (Run opts w) = Inr () \<longrightarrow>
         length (delete_calls (w_log (snd (Run opts w)))) = length (delete_calls (w_log w)) + length apps)"
proof -
  let ?w2 = "w\<lparr>w_log := w_log w @ resolve_events opts\<rparr>"
  have run: "Run opts w = delete_apps opts apps ?w2"
    using assms by (rule Run_resolved)
  have "delete_apps opts apps ?w2 = (fst (Run opts w), snd (Run opts w))"
    by (simp add: run)
  from delete_apps_outcome[OF this] show ?thesis
    by (auto simp: trace_simps)
qed

theorem Run_delete_calls_bounded_witness:
  "Name (AppGroupFlags abc_opts) \<noteq> ''''
   \<and> factory_answer abc_opts demo_world = Inr ()
   \<and> registry_answer abc_opts demo_world = Inr (demo_apps [''A'', ''B'', ''C''] ''ns1'')
   \<and> length (delete_calls (w_log (snd (Run abc_opts demo_world)))) \<le>
       length (delete_calls (w_log demo_world)) + length (demo_apps [''A'', ''B'', ''C''] ''ns1'')"
proof -
  have h1: "Name (AppGroupFlags abc_opts) \<noteq> ''''"
    and h2: "factory_answer abc_opts demo_world = Inr ()"
    and h3: "registry_answer abc_opts demo_world = Inr (demo_apps [''A'', ''B'', ''C''] ''ns1'')"
    by (simp_all add: abc_opts_def demo_opts_def scripted_deps_def)
  show ?thesis using h1 h2 h3 Run_delete_calls_bounded [OF h1 h2 h3] by blast
qed

end
