(* ===== verification/Command.thy ===== *)
theory Command
  imports GroupDelete
begin

text \<open>
  The command wiring of delete.go: \<open>NewDeleteOptions\<close> (lines 36--38) builds the
  options with the collaborators and every flag struct at its Go zero value (the zero
  values of the opaque diff, apply and deploy structs are parameters), and
  \<open>NewDeleteCmd\<close> (lines 40--50) the cobra command. Cobra binds the group, diff and
  apply flags to the fields of the options (lines 47--49) and fills them when it
  parses the command line, before calling \<open>RunE\<close>; \<open>parsed_flags\<close> is what parsing
  produced and \<open>set_flags\<close> writes it into the bound fields, so \<open>RunE\<close> of the model
  takes the parsed flags and runs \<open>Run\<close> on the options they complete. The deploy flags
  are bound nowhere. \<open>TTYByDefaultKey\<close> is the annotation key of \<open>cmdapp\<close>, kept
  abstract.
\<close>

datatype annotation_key = TTYByDefaultKey

record ('d, 'a) parsed_flags =
  pf_group :: group_flags
  pf_diff :: 'd
  pf_apply :: 'a

record ('c, 'd, 'a) cobra_command =
  Use :: string
  Short :: string
  RunE :: "('d, 'a) parsed_flags \<Rightarrow> ('c, 'd, 'a) gworld \<Rightarrow> (unit, ('c, 'd, 'a) gworld) outcome"
  Annotations :: "(annotation_key \<times> string) list"

definition zero_group_flags :: group_flags where
  "zero_group_flags = \<lparr>Name = '''', NamespaceFlags = \<lparr>ns_Name = ''''\<rparr>, AppNamespace = ''''\<rparr>"

definition NewDeleteOptions :: "('c, 'd, 'a) deps \<Rightarrow> 'dep \<Rightarrow> 'd \<Rightarrow> 'a \<Rightarrow> ('c, 'd, 'a, 'dep) opts" where
  "NewDeleteOptions deps zero_deploy zero_diff zero_apply =
     \<lparr>depsFactory = deps, AppGroupFlags = zero_group_flags, DeployFlags = zero_deploy,
      AppFlags = \<lparr>DiffFlags = zero_diff, ApplyFlags = zero_apply\<rparr>\<rparr>"

definition set_flags :: "('c, 'd, 'a, 'dep) opts \<Rightarrow> ('d, 'a) parsed_flags \<Rightarrow> ('c, 'd, 'a, 'dep) opts" where
  "set_flags opts pf =
     opts\<lparr>AppGroupFlags := pf_group pf,
       AppFlags := (AppFlags opts)\<lparr>DiffFlags := pf_diff pf, ApplyFlags := pf_apply pf\<rparr>\<rparr>"

definition NewDeleteCmd :: "('c, 'd, 'a, 'dep) opts \<Rightarrow> ('c, 'd, 'a) cobra_command" where
  "NewDeleteCmd opts =
     \<lparr>Use = ''delete'',
      Short = ''Delete app group'',
      RunE = (\<lambda>pf w. Run (set_flags opts pf) w),
      Annotations = [(TTYByDefaultKey, '''')]\<rparr>"

lemma outcome_log_changed: "w_log (snd R) \<noteq> w_log w \<Longrightarrow> R \<noteq> (r, w)"
  by auto

text \<open>C14: The command's RunE refuses to run exactly when the group name parsed from the command line is empty, whatever options the command was built over: it then returns the name error and makes no call and prints nothing, and with a non-empty parsed name it always goes on to build the clients.\<close>

theorem NewDeleteCmd_requires_group_name:
  "RunE (NewDeleteCmd opts) pf w = (Inl (Error ''Expected group name to be non-empty''), w)
     \<longleftrightarrow> Name (pf_group pf) = ''''"
proof -
  have run: "RunE (NewDeleteCmd opts) pf w = Run (set_flags opts pf) w"
    by (simp add: NewDeleteCmd_def)
  have name: "Name (AppGroupFlags (set_flags opts pf)) = Name (pf_group pf)"
    by (simp add: set_flags_def)
  show ?thesis
  proof (cases rule: Run_cases[of "set_flags opts pf" w])
    case empty_name
    with name run show ?thesis by simp
  next
    case (factory_failed e)
    have "Run (set_flags opts pf) w \<noteq> (Inl (Error ''Expected group name to be non-empty''), w)"
      by (rule outcome_log_changed) (simp add: factory_failed(3))
    with factory_failed(1) name run show ?thesis by simp
  next
    case (list_failed e)
    have "Run (set_flags opts pf) w \<noteq> (Inl (Error ''Expected group name to be non-empty''), w)"
      by (rule outcome_log_changed) (simp add: list_failed(4) resolve_events_def)
    with list_failed(1) name run show ?thesis by simp
  next
    case (resolved apps)
    obtain names where "w_log (snd (delete_apps (set_flags opts pf) apps
        (w\<lparr>w_log := w_log w @ resolve_events (set_flags opts pf)\<rparr>))) =
        (w_log w @ resolve_events (set_flags opts pf)) @ concat (map (member_events (set_flags opts pf)) names)"
      using delete_apps_calls[of "set_flags opts pf" apps "w\<lparr>w_log := w_log w @ resolve_events (set_flags opts pf)\<rparr>"]
      by auto
    then have "Run (set_flags opts pf) w \<noteq> (Inl (Error ''Expected group name to be non-empty''), w)"
      by (intro outcome_log_changed) (simp add: resolved(4) resolve_events_def)
    with resolved(1) name run show ?thesis by simp
  qed
qed

text \<open>C15: The flags parsed from the command line reach the delete workflow: every
  workflow call a run of the command makes carries the parsed diff and apply flags and
  the parsed namespace flags and app namespace, whatever the options were built
  with.\<close>

theorem NewDeleteCmd_passes_parsed_flags:
  "list_all (\<lambda>c. del_DiffFlags c = pf_diff pf \<and> del_ApplyFlags c = pf_apply pf
                \<and> app_NamespaceFlags (del_AppFlags c) = NamespaceFlags (pf_group pf)
                \<and> app_AppNamespace (del_AppFlags c) = AppNamespace (pf_group pf))
     (drop (length (delete_calls (w_log w))) (delete_calls (w_log (snd (RunE (NewDeleteCmd opts) pf w)))))"
proof -
  obtain evs names where
    "w_log (snd (Run (set_flags opts pf) w)) = w_log w @ evs @ concat (map (member_events (set_flags opts pf)) names)"
    and "delete_calls evs = []"
    using Run_trace by blast
  then show ?thesis
    by (auto simp: NewDeleteCmd_def trace_simps delete_config_def set_flags_def list_all_iff)
qed

theorem NewDeleteCmd_passes_parsed_flags_witness:
  "list_all (\<lambda>c. del_DiffFlags c = 3 \<and> del_ApplyFlags c = False
                \<and> app_NamespaceFlags (del_AppFlags c) = \<lparr>ns_Name = ''ns9''\<rparr> \<and> app_AppNamespace (del_AppFlags c) = '''')
     (drop (length (delete_calls (w_log demo_world)))
        (delete_calls (w_log (snd (RunE (NewDeleteCmd abc_opts)
            \<lparr>pf_group = \<lparr>Name = ''g'', NamespaceFlags = \<lparr>ns_Name = ''ns9''\<rparr>, AppNamespace = ''''\<rparr>,
             pf_diff = 3, pf_apply = False\<rparr> demo_world)))))"
  using NewDeleteCmd_passes_parsed_flags [where w = demo_world and opts = abc_opts and pf =
          "\<lparr>pf_group = \<lparr>Name = ''g'', NamespaceFlags = \<lparr>ns_Name = ''ns9''\<rparr>, AppNamespace = ''''\<rparr>,
            pf_diff = 3, pf_apply = False\<rparr>"]
  by simp

end
