(* ===== verification/CommandRegistry.thy ===== *)
theory CommandRegistry
  imports Command RegistryRetry
begin

text \<open>
  The command end to end. The cobra command of \<open>Command\<close> built by \<open>NewDeleteCmd\<close> over
  \<open>NewDeleteOptions\<close> with the collaborators of the spec's registry (\<open>Registry\<close>),
  run on the flags parsed from the command line: the group named on the command line
  is deleted in the namespace the parsed flags resolve to, and invoking the command a
  second time with the same flags succeeds without calling the delete workflow and
  leaves the cluster as the first invocation left it, which is the spec's retry
  contract seen from the command line.
\<close>

definition parsed_scope :: "('d, 'a) parsed_flags \<Rightarrow> string" where
  "parsed_scope pf = scope_of (NamespaceFlags (pf_group pf)) (AppNamespace (pf_group pf))"

definition parsed_members :: "('d, 'a) parsed_flags \<Rightarrow> cluster \<Rightarrow> cluster" where
  "parsed_members pf c =
     filter (\<lambda>t. in_scope (parsed_scope pf) t \<and> label_matches [(appGroupAnnKey, Name (pf_group pf))] t) c"

definition reg_command :: "'dep \<Rightarrow> 'd \<Rightarrow> 'a \<Rightarrow> (cluster, 'd, 'a) cobra_command" where
  "reg_command zero_deploy zero_diff zero_apply =
     NewDeleteCmd (NewDeleteOptions reg_deps zero_deploy zero_diff zero_apply)"

lemma set_flags_reg:
  "depsFactory (set_flags (NewDeleteOptions reg_deps zero_deploy zero_diff zero_apply) pf) = reg_deps"
  "Name (AppGroupFlags (set_flags opts pf)) = Name (pf_group pf)"
  "appNamespace (set_flags opts pf) = parsed_scope pf"
  by (simp_all add: set_flags_def NewDeleteOptions_def appNamespace_def parsed_scope_def scope_of_def)

lemma group_members_set_flags:
  "group_members (set_flags opts pf) c = parsed_members pf c"
  by (simp add: group_members_def parsed_members_def group_selector_def set_flags_reg(2,3))

text \<open>C22: Invoking the command built over fresh options and the spec's registry with
  a group name and a named namespace succeeds and removes, in that namespace, exactly
  the applications the registry lists for the parsed group name; invoking it again
  with the same flags succeeds too, makes no delete-workflow call and leaves the
  cluster unchanged.\<close>

theorem RunE_reg_rerun_is_noop:
  assumes "Name (pf_group pf) \<noteq> ''''" and "parsed_scope pf \<noteq> ''''"
  shows "fst (RunE (reg_command zero_deploy zero_diff zero_apply) pf w) = Inr ()
    \<and> w_cluster (snd (RunE (reg_command zero_deploy zero_diff zero_apply) pf w)) =
        remove_in (parsed_scope pf) (map t_name (parsed_members pf (w_cluster w))) (w_cluster w)
    \<and> fst (RunE (reg_command zero_deploy zero_diff zero_apply) pf (snd (RunE (reg_command zero_deploy zero_diff zero_apply) pf w))) = Inr ()
    \<and> delete_calls (w_log (snd (RunE (reg_command zero_deploy zero_diff zero_apply) pf (snd (RunE (reg_command zero_deploy zero_diff zero_apply) pf w))))) = delete_calls (w_log (snd (RunE (reg_command zero_deploy zero_diff zero_apply) pf w)))
    \<and> w_cluster (snd (RunE (reg_command zero_deploy zero_diff zero_apply) pf (snd (RunE (reg_command zero_deploy zero_diff zero_apply) pf w)))) = w_cluster (snd (RunE (reg_command zero_deploy zero_diff zero_apply) pf w))"
proof -
  let ?o = "set_flags (NewDeleteOptions reg_deps zero_deploy zero_diff zero_apply) pf"
  have d: "depsFactory ?o = reg_deps" and n: "Name (AppGroupFlags ?o) \<noteq> ''''"
    and s: "appNamespace ?o \<noteq> ''''"
    using assms(1,2) by (simp_all add: set_flags_reg)
  have run: "RunE (reg_command zero_deploy zero_diff zero_apply) pf = Run ?o" by (simp add: reg_command_def NewDeleteCmd_def fun_eq_iff)
  let ?P = "label_matches (group_selector ?o)"
  let ?w1 = "snd (Run ?o w)"
  have c1: "w_cluster ?w1 = filter (\<lambda>t. \<not> (t_namespace t = appNamespace ?o \<and>
              t_name t \<in> set (map t_name (filter (\<lambda>t. in_scope (appNamespace ?o) t \<and> ?P t) (w_cluster w)))))
              (w_cluster w)"
    using Run_reg[OF d n, of w] by (simp add: Let_def)
  have none: "filter (\<lambda>t. in_scope (appNamespace ?o) t \<and> ?P t) (w_cluster ?w1) = []"
    unfolding c1 using s by (rule reg_members_after_delete)
  have r2: "Run ?o ?w1 = (Inr (), ?w1\<lparr>w_log := w_log ?w1 @ resolve_events ?o\<rparr>)"
    using Run_reg[OF d n, of ?w1] none by (simp add: Let_def)
  have r1: "fst (Run ?o w) = Inr ()"
    using Run_reg[OF d n, of w] by (simp add: Let_def)
  have c: "w_cluster (snd (Run ?o w)) = remove_in (parsed_scope pf) (map t_name (parsed_members pf (w_cluster w))) (w_cluster w)"
    using Run_reg_remove_in[OF d n, of w] by (simp add: group_members_set_flags set_flags_reg(3))
  show ?thesis
    using r1 r2 c by (simp add: run trace_simps)
qed

theorem RunE_reg_rerun_is_noop_witness:
  "fst (RunE (reg_command () (0::nat) False) \<lparr>pf_group = \<lparr>Name = ''shop'', NamespaceFlags = \<lparr>ns_Name = ''ns1''\<rparr>,
      AppNamespace = ''''\<rparr>, pf_diff = 0, pf_apply = False\<rparr> reg_world) = Inr ()
   \<and> w_cluster (snd (RunE (reg_command () (0::nat) False) \<lparr>pf_group = \<lparr>Name = ''shop'', NamespaceFlags = \<lparr>ns_Name = ''ns1''\<rparr>,
      AppNamespace = ''''\<rparr>, pf_diff = 0, pf_apply = False\<rparr>
       (snd (RunE (reg_command () (0::nat) False) \<lparr>pf_group = \<lparr>Name = ''shop'', NamespaceFlags = \<lparr>ns_Name = ''ns1''\<rparr>,
      AppNamespace = ''''\<rparr>, pf_diff = 0, pf_apply = False\<rparr> reg_world)))) =
     w_cluster (snd (RunE (reg_command () (0::nat) False) \<lparr>pf_group = \<lparr>Name = ''shop'', NamespaceFlags = \<lparr>ns_Name = ''ns1''\<rparr>,
      AppNamespace = ''''\<rparr>, pf_diff = 0, pf_apply = False\<rparr> reg_world))"
proof -
  let ?pf = "\<lparr>pf_group = \<lparr>Name = ''shop'', NamespaceFlags = \<lparr>ns_Name = ''ns1''\<rparr>, AppNamespace = ''''\<rparr>,
              pf_diff = 0::nat, pf_apply = False\<rparr>"
  have h1: "Name (pf_group ?pf) \<noteq> ''''" and h2: "parsed_scope ?pf \<noteq> ''''"
    by (simp_all add: parsed_scope_def scope_of_def)
  show ?thesis
    using RunE_reg_rerun_is_noop [OF h1 h2, where zero_deploy = "()" and zero_diff = "0::nat" and zero_apply = False and w = reg_world] by simp
qed

end
