(* ===== verification/TraceOrder.thy ===== *)
theory TraceOrder
  imports GroupDelete
begin

text \<open>
  The order of the interactions of a run, as an automaton over the trace in the
  style of a protocol's trace predicate. \<open>trace_next\<close> reads one event: first the
  factory call with the group's namespace flags and app namespace, then the registry
  listing with the group's selector, then any number of pairs of a progress line and
  the workflow call for the member that line names, with the member's configuration
  as \<open>deleteApp\<close> builds it. Any other event rejects. A trace is accepted when the
  automaton ends outside \<open>TReject\<close> and not between a progress line and its call: a
  run may stop after the factory, after the listing, or after any member, but never
  prints a line without making the call it announces. The lemmas show that the
  events every run of \<open>Run\<close> appends are accepted, for every implementation of the
  collaborators, and conversely that every non-empty accepted trace of a named group
  is the trace of some run, with the collaborators \<open>echo_deps\<close> that answer the
  factory, list the members the trace names and let every workflow call succeed: the
  automaton describes exactly the interaction orders of the code.
\<close>

datatype tpos = TStart | TFactory | TListed | TPrinted string | TReject

fun trace_next :: "('c, 'd, 'a, 'dep) opts \<Rightarrow> tpos \<Rightarrow> ('d, 'a) event \<Rightarrow> tpos" where
  "trace_next opts TStart (FactoryClientsCall nf an) =
     (if nf = NamespaceFlags (AppGroupFlags opts) \<and> an = AppNamespace (AppGroupFlags opts)
      then TFactory else TReject)"
| "trace_next opts TFactory (AppsListCall sel) =
     (if sel = group_selector opts then TListed else TReject)"
| "trace_next opts TListed (PrintLine s) = TPrinted s"
| "trace_next opts (TPrinted s) (DeleteRunCall cfg) =
     (if s = progress_line (app_Name (del_AppFlags cfg)) (appNamespace opts)
         \<and> cfg = delete_config opts (app_Name (del_AppFlags cfg))
      then TListed else TReject)"
| "trace_next opts _ _ = TReject"

fun trace_run :: "('c, 'd, 'a, 'dep) opts \<Rightarrow> tpos \<Rightarrow> ('d, 'a) event list \<Rightarrow> tpos" where
  "trace_run opts p [] = p"
| "trace_run opts p (e # es) = trace_run opts (trace_next opts p e) es"

definition trace_accepts :: "('c, 'd, 'a, 'dep) opts \<Rightarrow> ('d, 'a) event list \<Rightarrow> bool" where
  "trace_accepts opts evs \<longleftrightarrow> trace_run opts TStart evs \<in> {TStart, TFactory, TListed}"

definition echo_deps :: "unit result \<Rightarrow> app list \<Rightarrow> ('c, 'd, 'a) deps" where
  "echo_deps fc apps =
     \<lparr>factory_clients = (\<lambda>_ _ _. fc), apps_list = (\<lambda>_ _ _ _. Inr apps), delete_run = (\<lambda>_ c. (Inr (), c))\<rparr>"

lemma trace_run_append [simp]:
  "trace_run opts p (xs @ ys) = trace_run opts (trace_run opts p xs) ys"
  by (induction xs arbitrary: p) simp_all

lemma trace_run_members [simp]:
  "trace_run opts TListed (concat (map (member_events opts) names)) = TListed"
  by (induction names) (simp_all add: member_events_def delete_config_def)

lemma trace_accepts_rejects_out_of_order:
  "\<not> trace_accepts abc_opts (resolve_events abc_opts @ [DeleteRunCall (delete_config abc_opts ''A'')])"
  "\<not> trace_accepts abc_opts (resolve_events abc_opts @ [PrintLine (progress_line ''A'' ''ns1'')])"
  "\<not> trace_accepts abc_opts (AppsListCall (group_selector abc_opts) # resolve_events abc_opts)"
  by (simp_all add: trace_accepts_def resolve_events_def)

lemma trace_run_TReject [simp]: "trace_run opts TReject evs = TReject"
  by (induction evs) simp_all

lemma trace_run_listed:
  "trace_run opts p evs = TListed \<Longrightarrow>
    (p = TListed \<longrightarrow> (\<exists>names. evs = concat (map (member_events opts) names)))
    \<and> (\<forall>s. p = TPrinted s \<longrightarrow> (\<exists>n names. s = progress_line n (appNamespace opts)
          \<and> evs = DeleteRunCall (delete_config opts n) # concat (map (member_events opts) names)))"
proof (induction evs arbitrary: p)
  case Nil
  then show ?case by (auto intro: exI[of _ "[]"])
next
  case (Cons e evs)
  show ?case
  proof (intro conjI allI impI)
    assume p: "p = TListed"
    obtain s where e: "e = PrintLine s"
      using Cons.prems p by (cases e) simp_all
    with Cons.prems p have "trace_run opts (TPrinted s) evs = TListed" by simp
    from Cons.IH[OF this] obtain n names where
      "s = progress_line n (appNamespace opts)"
      "evs = DeleteRunCall (delete_config opts n) # concat (map (member_events opts) names)"
      by blast
    with e show "\<exists>names. e # evs = concat (map (member_events opts) names)"
      by (intro exI[of _ "n # names"]) (simp add: member_events_def)
  next
    fix s assume p: "p = TPrinted s"
    obtain cfg where e: "e = DeleteRunCall cfg"
      using Cons.prems p by (cases e) simp_all
    let ?n = "app_Name (del_AppFlags cfg)"
    have ok: "s = progress_line ?n (appNamespace opts) \<and> cfg = delete_config opts ?n"
      using Cons.prems p e by (auto split: if_splits)
    with Cons.prems p e have "trace_run opts TListed evs = TListed" by simp
    from Cons.IH[OF this] obtain names where "evs = concat (map (member_events opts) names)"
      by blast
    with e ok show "\<exists>n names. s = progress_line n (appNamespace opts)
          \<and> e # evs = DeleteRunCall (delete_config opts n) # concat (map (member_events opts) names)"
      by blast
  qed
qed

lemma trace_run_from_listed:
  "trace_run opts TListed evs \<noteq> TStart" "trace_run opts TListed evs \<noteq> TFactory"
proof -
  have "trace_run opts p evs \<notin> {TStart, TFactory}" if "p \<notin> {TStart, TFactory}" for p
    using that
  proof (induction evs arbitrary: p)
    case (Cons e evs)
    have "trace_next opts p e \<notin> {TStart, TFactory}"
      using Cons.prems by (cases p; cases e) simp_all
    from Cons.IH[OF this] show ?case by simp
  qed simp
  then show "trace_run opts TListed evs \<noteq> TStart" "trace_run opts TListed evs \<noteq> TFactory" by auto
qed

lemma trace_accepts_cases:
  assumes "trace_accepts opts evs" and "evs \<noteq> []"
  shows "evs = [FactoryClientsCall (NamespaceFlags (AppGroupFlags opts)) (AppNamespace (AppGroupFlags opts))]
    \<or> (\<exists>names. evs = resolve_events opts @ concat (map (member_events opts) names))"
proof -
  obtain e rest where evs: "evs = e # rest" using assms(2) by (cases evs) auto
  have acc: "trace_run opts (trace_next opts TStart e) rest \<in> {TStart, TFactory, TListed}"
    using assms(1) by (simp add: trace_accepts_def evs)
  obtain nf an where e: "e = FactoryClientsCall nf an"
    using acc by (cases e) simp_all
  have f: "nf = NamespaceFlags (AppGroupFlags opts) \<and> an = AppNamespace (AppGroupFlags opts)"
    using acc e by (auto split: if_splits)
  with acc e have r: "trace_run opts TFactory rest \<in> {TStart, TFactory, TListed}" by simp
  show ?thesis
  proof (cases rest)
    case Nil
    with evs e f show ?thesis by simp
  next
    case (Cons e2 rest2)
    obtain sel where e2: "e2 = AppsListCall sel"
      using r Cons by (cases e2) simp_all
    have sel: "sel = group_selector opts"
      using r Cons e2 by (auto split: if_splits)
    with r Cons e2 have "trace_run opts TListed rest2 \<in> {TStart, TFactory, TListed}" by simp
    moreover have "trace_run opts TListed rest2 \<noteq> TStart" "trace_run opts TListed rest2 \<noteq> TFactory"
      using trace_run_from_listed by blast+
    ultimately have "trace_run opts TListed rest2 = TListed" by blast
    then obtain names where n: "rest2 = concat (map (member_events opts) names)"
      using trace_run_listed by blast
    show ?thesis
      using evs e f Cons e2 sel n by (intro disjI2 exI[of _ names]) (simp add: resolve_events_def)
  qed
qed

text \<open>C17: Every run makes its interactions in the order of the automaton: the factory
  call, the registry listing with the group's selector, then for each member its
  progress line immediately followed by the workflow call for that member, stopping
  after any of these, never between a line and its call.\<close>

theorem Run_trace_accepted:
  "trace_accepts opts (drop (length (w_log w)) (w_log (snd (Run opts w))))"
proof (cases rule: Run_cases[of opts w])
  case (resolved apps)
  moreover obtain names where
    "w_log (snd (delete_apps opts apps (w\<lparr>w_log := w_log w @ resolve_events opts\<rparr>))) =
       w_log w @ resolve_events opts @ concat (map (member_events opts) names)"
    using delete_apps_calls[of opts apps "w\<lparr>w_log := w_log w @ resolve_events opts\<rparr>"] by auto
  ultimately show ?thesis
    by (simp add: trace_accepts_def resolve_events_def)
qed (simp_all add: trace_accepts_def resolve_events_def)

lemma events_depsFactory [simp]:
  "member_events (opts\<lparr>depsFactory := d\<rparr>) = member_events opts"
  "resolve_events (opts\<lparr>depsFactory := d\<rparr>) = resolve_events opts"
  by (simp_all add: fun_eq_iff member_events_def resolve_events_def delete_config_def appNamespace_def
                    group_selector_def)

lemma delete_apps_echo:
  assumes "depsFactory opts = echo_deps fc apps'"
  shows "delete_apps opts apps w =
           (Inr (), w\<lparr>w_log := w_log w @ concat (map (\<lambda>a. member_events opts (app_name a)) apps)\<rparr>)"
  using assms by (induction apps arbitrary: w) (simp_all add: deleteApp_eq echo_deps_def member_events_def)

text \<open>C20: The automaton admits nothing the code cannot do: every non-empty trace it
  accepts for a named group is exactly the trace of a run of the command, with
  collaborators that answer the factory call, list the members the trace names, and
  let every workflow call succeed.\<close>

theorem Run_realises_accepted_trace:
  assumes "Name (AppGroupFlags opts) \<noteq> ''''" and "trace_accepts opts evs" and "evs \<noteq> []"
  shows "\<exists>fc apps. drop (length (w_log w)) (w_log (snd (Run (opts\<lparr>depsFactory := echo_deps fc apps\<rparr>) w))) = evs"
  using trace_accepts_cases[OF assms(2,3)]
proof
  assume evs: "evs = [FactoryClientsCall (NamespaceFlags (AppGroupFlags opts)) (AppNamespace (AppGroupFlags opts))]"
  show ?thesis
    using assms(1) evs
    by (intro exI[of _ "Inl (Error ''no clients'')"] exI[of _ "[]"])
       (simp add: Run_def Let_def emit_def echo_deps_def)
next
  assume "\<exists>names. evs = resolve_events opts @ concat (map (member_events opts) names)"
  then obtain names where evs: "evs = resolve_events opts @ concat (map (member_events opts) names)" ..
  let ?apps = "map (\<lambda>n. \<lparr>app_name = n, app_namespace = ''''\<rparr>) names"
  let ?o = "opts\<lparr>depsFactory := echo_deps (Inr ()) ?apps\<rparr>"
  have "Name (AppGroupFlags ?o) \<noteq> ''''" "factory_answer ?o w = Inr ()" "registry_answer ?o w = Inr ?apps"
    using assms(1) by (simp_all add: echo_deps_def)
  then have "Run ?o w = delete_apps ?o ?apps (w\<lparr>w_log := w_log w @ resolve_events ?o\<rparr>)"
    by (rule Run_resolved)
  then have "drop (length (w_log w)) (w_log (snd (Run ?o w))) = evs"
    using delete_apps_echo[of ?o "Inr ()" ?apps ?apps] evs by (simp add: comp_def)
  then show ?thesis by blast
qed

theorem Run_realises_accepted_trace_witness:
  "\<exists>fc apps. drop (length (w_log demo_world))
      (w_log (snd (Run (abc_opts\<lparr>depsFactory := echo_deps fc apps\<rparr>) demo_world))) =
     resolve_events abc_opts @ member_events abc_opts ''A''"
proof -
  have h1: "Name (AppGroupFlags abc_opts) \<noteq> ''''"
    by (simp add: abc_opts_def demo_opts_def)
  have h2: "trace_accepts abc_opts (resolve_events abc_opts @ member_events abc_opts ''A'')"
    by (simp add: trace_accepts_def resolve_events_def member_events_def delete_config_def)
  have h3: "resolve_events abc_opts @ member_events abc_opts ''A'' \<noteq> []"
    by (simp add: resolve_events_def)
  show ?thesis using Run_realises_accepted_trace [OF h1 h2 h3] .
qed

end
