(* ===== verification/Spec2Isabelle.thy ===== *)
theory Spec2Isabelle
  imports Lifecycle RegistryOrder ListedNamespace ProgressLine CallBound CommandRegistry TraceOrder
begin

text \<open>
  \<^bold>\<open>Group delete of kapp app groups, verified.\<close>

  The program is \<open>src/pkg/kapp/cmd/appgroup/delete.go\<close>, the \<open>kapp app-group delete\<close>
  command: \<open>NewDeleteOptions\<close> and \<open>NewDeleteCmd\<close> build the options and the cobra
  command, whose \<open>RunE\<close> calls \<open>DeleteOptions.Run\<close>. \<open>Run\<close> validates the group name, builds
  the clients (\<open>cmdapp.FactoryClients\<close>), lists the applications whose label
  \<open>kapp.k14s.io/app-group\<close> is the group name (\<open>supportObjs.Apps.List\<close>), and deletes
  them one by one through the single-application delete workflow
  (\<open>cmdapp.DeleteOptions.Run\<close>), printing a progress line before each and stopping at
  the first error. Its collaborators and flag structs live outside \<open>src/\<close>.

  \<^bold>\<open>Theories.\<close>
  \<^item> \<open>Prelude\<close>: Go errors as \<open>Error msg\<close>, the result type \<open>error + 'a\<close>, the outcome
    of an effectful call (result and world), the theorem collections \<open>trace_simps\<close>
    and \<open>phase_intros\<close>.
  \<^item> \<open>Flags\<close>: \<open>appGroupAnnKey\<close> (lines 17--19), \<open>DeleteAppFlags\<close> (31--34) and, from
    the spec, \<open>cmdcore.NamespaceFlags\<close>, \<open>appgroup.Flags\<close>, \<open>cmdapp.Flags\<close>. Diff, apply
    and deploy flags are type parameters: the command passes them on unread.
  \<^item> \<open>Collaborators\<close>: the interface the command is written against, as a record of
    functions \<open>deps\<close> (factory, registry listing, delete workflow) over an abstract
    cluster \<open>'c\<close>; the world is the cluster with the trace of interactions
    (collaborator calls and the lines this unit prints, in order); \<open>delete_calls\<close>,
    \<open>list_calls\<close> and \<open>printed\<close> read the trace; \<open>scripted_deps\<close> is the test double of the
    spec's scenarios. By this interface the factory and the listing read the cluster
    only, and the workflow does not print to the shared \<open>ui\<close>.
  \<^item> \<open>GroupDelete\<close>: the code itself. \<open>delete_options\<close> is \<open>DeleteOptions\<close> (21--29,
    \<open>depsFactory\<close> the collaborators, \<open>ui\<close> the printed lines of the trace);
    \<open>appNamespace\<close> (94--99), \<open>progress_line\<close> (79--80), \<open>delete_config\<close> (82--89),
    \<open>deleteApp\<close> (78--92), the range loop \<open>delete_apps\<close> (68--73), \<open>group_selector\<close>
    (63) and \<open>Run\<close> (53--76). Every function takes the world and returns its result
    with the world it leaves; every early return of the Go code is a branch.
    \<open>replay\<close> and \<open>outcomes\<close> replay a list of workflow configurations against a
    cluster and give the cluster left and each call's result: the reference the
    loop is compared with. \<open>Run_cases\<close> splits \<open>Run\<close> into its three early returns and
    its loop, and \<open>delete_apps_outcome\<close> gives the exact outcome of the loop.
  \<^item> \<open>Command\<close>: \<open>NewDeleteOptions\<close> (36--38) and \<open>NewDeleteCmd\<close> (40--50); the flag
    bindings of lines 47--49 are \<open>set_flags\<close>, which writes the values cobra parsed
    into the bound fields before \<open>RunE\<close> runs \<open>Run\<close>.
  \<^item> \<open>ProgressLine\<close>: a reader of the progress-line format, independent of
    \<open>progress_line\<close>, and what it recovers from a run's trace.
  \<^item> \<open>CallBound\<close>: the number of workflow calls of a run.
  \<^item> \<open>TraceOrder\<close>: the order of a run's interactions as an automaton over the trace
    (\<open>trace_next\<close>, \<open>trace_accepts\<close>).
  \<^item> \<open>Lifecycle\<close>: the spec's state machine (section 4.2) as the inductive step
    relation \<open>lc_step\<close> with reachability \<open>lc_runs\<close>, and its refinement by \<open>Run\<close>.
  \<^item> \<open>Registry\<close>: a concrete cluster of labelled applications with the registry
    listing and the delete workflow the spec describes (sections 3, 4.1, 5, 6);
    \<open>RegistryRetry\<close>: the same registry with a workflow that fails on chosen members;
    \<open>RegistryOrder\<close>: two group deletes in sequence and the order of the listing;
    \<open>ListedNamespace\<close>: the reference \<open>Run_listed\<close>, the code with the one change of
    deleting each member in the namespace it was listed in.
  \<^item> \<open>CommandRegistry\<close>: the command of \<open>Command\<close> over the registry, end to end.
  \<^item> this theory: the blank-name divergence.

  \<^bold>\<open>What is proved.\<close>
  For every implementation of the collaborators (\<open>GroupDelete\<close>): an empty name fails
  before any call and leaves the world unchanged; an error of the factory or of the
  registry is returned unchanged before any deletion; an empty group is a
  successful no-op. Once the group is resolved, the run either hands every listed
  member to the workflow in order, every call succeeding, and succeeds with the
  cluster those calls leave, or stops at the first member whose call fails, after
  every earlier one succeeded, and returns that error unchanged, touching no later
  member; the workflow calls and progress lines are for a prefix of the listed
  members, each call carrying the member's name and the group's namespace, diff
  and apply flags unchanged; an explicit app namespace is the namespace of every
  progress line. \<open>Lifecycle\<close>: once resolved, each run is a path of the spec's machine
  over the listed members ending in the phase of its result. \<open>CallBound\<close>: a run makes
  at most as many workflow calls as there are listed members, exactly as many when
  it succeeds. \<open>ProgressLine\<close>: each printed line decodes to the member and namespace
  of the workflow call after it, for quote-free names. \<open>TraceOrder\<close>: every run's
  trace is accepted by the ordering automaton (factory call, listing, then each
  progress line immediately followed by its workflow call), and every non-empty
  accepted trace is the trace of some run. \<open>Command\<close>: the command refuses to run
  exactly when the parsed group name is empty, and passes the parsed flags to every
  workflow call. Against the spec's registry: with a named namespace a run removes
  exactly the group's members there and a second run resolves nothing
  (\<open>Registry\<close>); a failing run removes exactly the members before the first failing
  one and returns its error, and a re-run with a working workflow removes exactly the
  group's listed members (\<open>RegistryRetry\<close>); deleting two groups in either order
  removes exactly both groups' members, and with a working workflow the listing
  order does not change the outcome (\<open>RegistryOrder\<close>); in a named scope the code and
  \<open>Run_listed\<close> return the same result and leave the same cluster (\<open>ListedNamespace\<close>);
  the command invoked twice with the same flags deletes the group once and is then a
  no-op (\<open>CommandRegistry\<close>).

  \<^bold>\<open>Findings.\<close>
  The name check is \<open>len(name) == 0\<close>, so a blank name reaches the registry, where the
  spec asks for a configuration error (\<open>Run_blank_name_reaches_registry\<close>). And
  \<open>deleteApp\<close> keeps only \<open>app.Name()\<close>: every workflow call carries the group's
  namespace, not the one its member was listed in
  (\<open>GroupDelete.Run_delete_calls_share_config\<close>). In a named scope this is harmless
  (\<open>ListedNamespace.Run_agrees_with_listed_in_named_scope\<close>); in the all-namespaces
  scope the workflow is handed the empty namespace for members of every namespace,
  and what it then deletes depends on how it treats the empty namespace, which the
  spec does not say. \<open>DeployFlags\<close> of \<open>DeleteOptions\<close> is bound to no flag and read
  nowhere, and the progress line does not escape the name it quotes
  (\<open>ProgressLine.progress_line_ambiguous_with_quote\<close>).

  \<^bold>\<open>Bounds and termination.\<close> The only loop of the code is the range over a
  finite list, structural recursion; no fuel is needed and every definition is
  executable, so the witnesses are evaluated by \<open>simp\<close>.

  \<^bold>\<open>Modelling choices of the spec-side registry.\<close> \<open>reg_delete_run\<close> removes the
  application of the configured name in the namespace \<open>FactoryClients\<close> would resolve
  (the app namespace if set, else the namespace flag). For the all-namespaces scope
  that is the empty namespace; the spec does not say what the workflow does there,
  and no property above depends on it except those stated for a named scope or for
  any scope through \<open>remove_in\<close> of the resolved namespace.

  \<^bold>\<open>Not modelled.\<close> The names, help texts and defaults of the flags that
  \<open>appgroup.Flags.Set\<close>, \<open>DiffFlags.SetWithPrefix\<close> and \<open>ApplyFlags.SetWithDefaults\<close>
  register (lines 47--49 are modelled only as the binding of the parsed values);
  \<open>ResourceTypesFlags\<close> passed to \<open>Apps.List\<close> and the logger, which have no effect on
  the outcome. The delete workflow's own diff, apply and wait behaviour is outside
  this unit: it is the \<open>delete_run\<close> field of the interface, refined in \<open>Registry\<close> by
  the spec's contract. The lines of delete.go not in the map are the license header,
  the package and import declarations, and blank and closing lines. The three
  components left partly modelled are so because their code lies outside \<open>src/\<close>.
\<close>

lemma Run_lists_after_factory:
  assumes "Name (AppGroupFlags opts) \<noteq> ''''"
    and "factory_answer opts w = Inr ()"
  shows "AppsListCall (group_selector opts) \<in> set (w_log (snd (Run opts w)))"
proof (cases rule: Run_cases[of opts w])
  case (resolved apps)
  moreover obtain names where
    "w_log (snd (delete_apps opts apps (w\<lparr>w_log := w_log w @ resolve_events opts\<rparr>))) =
       (w_log w @ resolve_events opts) @ concat (map (member_events opts) names)"
    using delete_apps_calls[of opts apps "w\<lparr>w_log := w_log w @ resolve_events opts\<rparr>"] by auto
  ultimately show ?thesis by (simp add: resolve_events_def)
qed (use assms in \<open>simp_all add: resolve_events_def\<close>)

text \<open>C10: The check of line 54 is on the length only: a group name made of blanks
  passes it, and the run goes on to build the clients and list the registry with
  that name as the label value, where the spec asks for a configuration error
  before any registry call.\<close>

theorem Run_blank_name_reaches_registry:
  assumes "Name (AppGroupFlags opts) = '' ''"
    and "factory_answer opts w = Inr ()"
  shows "AppsListCall [(appGroupAnnKey, '' '')] \<in> set (w_log (snd (Run opts w)))"
proof -
  have "Name (AppGroupFlags opts) \<noteq> ''''" using assms(1) by simp
  from Run_lists_after_factory[OF this assms(2)] assms(1) show ?thesis
    by (simp add: group_selector_def)
qed

theorem Run_blank_name_reaches_registry_witness:
  "Name (AppGroupFlags (demo_opts (scripted_deps (Inr ()) (Inr []) []) '' '' ''ns2'' '''')) = '' ''
   \<and> factory_answer (demo_opts (scripted_deps (Inr ()) (Inr []) []) '' '' ''ns2'' '''') demo_world = Inr ()
   \<and> AppsListCall [(appGroupAnnKey, '' '')] \<in>
       set (w_log (snd (Run (demo_opts (scripted_deps (Inr ()) (Inr []) []) '' '' ''ns2'' '''') demo_world)))"
proof -
  let ?o = "demo_opts (scripted_deps (Inr ()) (Inr []) []) '' '' ''ns2'' ''''"
  have h1: "Name (AppGroupFlags ?o) = '' ''" and h2: "factory_answer ?o demo_world = Inr ()"
    by (simp_all add: demo_opts_def scripted_deps_def)
  show ?thesis using h1 h2 Run_blank_name_reaches_registry [OF h1 h2] by blast
qed

end
